theory Spec2Isabelle
  imports Main "HOL-Library.Sublist"
begin

section \<open>Data model (types/index.ts)\<close>

text \<open>
  Strings are lists of 8-bit code units (the Latin-1 range of the UTF-16 strings of the
  source). The line numbers of a syntax tree are natural numbers. The numbers the diff
  parser computes are IEEE doubles; the ones it can meet are natural numbers or positive
  infinity: \<open>Finite n\<close> is the double whose value is the natural number \<open>n\<close>.
\<close>

datatype number = Finite nat | Infinity

record TestInfo =
  name :: string
  filePath :: string
  startLine :: nat
  endLine :: nat

datatype ImpactType = Added | Removed | Modified

text \<open>\<open>isIndirect\<close> is an optional field: \<open>None\<close> is a result built without it.\<close>

record ImpactResult =
  testName :: string
  resultPath :: string
  impactType :: ImpactType
  isIndirect :: "bool option"

datatype ChangeType = FileAdded | FileModified | FileDeleted

record ChangedFile =
  path :: string
  changeType :: ChangeType
  addedLines :: "number list"
  deletedLines :: "number list"

text \<open>
  What ends a run without a result: \<open>git show\<close> rejects, ts-morph cannot add a file, or
  a push meets the length limit of arrays.
\<close>

datatype error = DiffFailed string | SourceFileNotFound string | ArrayLengthExceeded

section \<open>String primitives\<close>

definition startsWith :: "string \<Rightarrow> string \<Rightarrow> bool" where
  "startsWith s p = prefix p s"

definition endsWith :: "string \<Rightarrow> string \<Rightarrow> bool" where
  "endsWith s p = suffix p s"

definition newline :: char where
  "newline = CHR 0x0A"

text \<open>\<open>s.split('\n')\<close>: the pieces between line feeds; never the empty list.\<close>

fun split_lines :: "string \<Rightarrow> string list" where
  "split_lines [] = [[]]"
| "split_lines (c # cs) =
     (if c = newline then [] # split_lines cs
      else (case split_lines cs of
              [] \<Rightarrow> [[c]]
            | l # ls \<Rightarrow> (c # l) # ls))"

text \<open>The regular-expression classes \<open>\d\<close>, \<open>\s\<close> and \<open>.\<close> on 8-bit code units.\<close>

definition isDigit :: "char \<Rightarrow> bool" where
  "isDigit c = (48 \<le> (of_char c :: nat) \<and> (of_char c :: nat) \<le> 57)"

definition isSpace :: "char \<Rightarrow> bool" where
  "isSpace c = ((of_char c :: nat) \<in> {9, 10, 11, 12, 13, 32, 160})"

definition isDot :: "char \<Rightarrow> bool" where
  "isDot c = ((of_char c :: nat) \<notin> {10, 13})"

section \<open>Numbers\<close>

text \<open>
  \<open>toNumber n\<close> is the double nearest to the natural number \<open>n\<close>, a tie going to the
  even significand: \<open>n\<close> itself below \<open>2 ^ 53\<close>; from there on a multiple of
  \<open>2 ^ e\<close>, where \<open>e\<close> is the least exponent with \<open>n < 2 ^ (53 + e)\<close>; and infinity
  when the rounded value reaches \<open>2 ^ 1024\<close>.
\<close>

function exponentFrom :: "nat \<Rightarrow> nat \<Rightarrow> nat" where
  "exponentFrom n e = (if n < 2 ^ (53 + e) then e else exponentFrom n (Suc e))"
  by pat_completeness auto
termination
proof (relation "measure (\<lambda>(n, e). Suc n - 2 ^ (53 + e))")
  show "wf (measure (\<lambda>(n, e). Suc n - 2 ^ (53 + e)))" by simp
next
  fix n e :: nat
  assume "\<not> n < 2 ^ (53 + e)"
  moreover have "(0::nat) < 2 ^ (53 + e)" by simp
  moreover have "(2::nat) ^ (53 + Suc e) = 2 * 2 ^ (53 + e)"
    by (simp only: add_Suc_right power_Suc)
  ultimately have "Suc n - 2 ^ (53 + Suc e) < Suc n - 2 ^ (53 + e)" by linarith
  then show "((n, Suc e), (n, e)) \<in> measure (\<lambda>(n, e). Suc n - 2 ^ (53 + e))"
    by (simp only: in_measure prod.case)
qed

declare exponentFrom.simps [simp del]

definition roundTo :: "nat \<Rightarrow> nat \<Rightarrow> nat" where
  "roundTo e n =
     (let q = n div 2 ^ e; r = n mod 2 ^ e; half = 2 ^ e div 2
      in (if half < r \<or> (r = half \<and> odd q) then Suc q else q) * 2 ^ e)"

definition toNumber :: "nat \<Rightarrow> number" where
  "toNumber n =
     (if n < 2 ^ 53 then Finite n
      else (let v = roundTo (exponentFrom n 1) n
            in if v < 2 ^ 1024 then Finite v else Infinity))"

text \<open>
  \<open>parseInt\<close> on a string of decimal digits: the double nearest to the number the
  digits write (Node rounds correctly whatever the number of digits).
\<close>

definition digitVal :: "char \<Rightarrow> nat" where
  "digitVal c = (of_char c :: nat) - 48"

definition decimalValue :: "string \<Rightarrow> nat" where
  "decimalValue ds = foldl (\<lambda>n c. 10 * n + digitVal c) 0 ds"

definition parseInt :: "string \<Rightarrow> number" where
  "parseInt ds = toNumber (decimalValue ds)"

text \<open>
  \<open>start + j\<close> and \<open>j < count\<close> for a loop counter \<open>j\<close>, which stays an exact
  natural number: the sum is rounded like every double.
\<close>

fun numAdd :: "number \<Rightarrow> nat \<Rightarrow> number" where
  "numAdd (Finite a) j = toNumber (a + j)"
| "numAdd Infinity j = Infinity"

fun numLess :: "nat \<Rightarrow> number \<Rightarrow> bool" where
  "numLess j (Finite c) = (j < c)"
| "numLess j Infinity = True"

text \<open>\<open>line >= n\<close> and \<open>line <= n\<close> for a line number \<open>n\<close> of a syntax tree.\<close>

fun numGe :: "number \<Rightarrow> nat \<Rightarrow> bool" where
  "numGe (Finite a) n = (a \<ge> n)"
| "numGe Infinity n = True"

fun numLe :: "number \<Rightarrow> nat \<Rightarrow> bool" where
  "numLe (Finite a) n = (a \<le> n)"
| "numLe Infinity n = False"

text \<open>An array holds at most \<open>2 ^ 32 - 1\<close> elements.\<close>

definition arrayLimit :: nat where
  "arrayLimit = 4294967295"

section \<open>Diff parser (GitOperations.parseDiff)\<close>

subsection \<open>The two path-marker patterns\<close>

text \<open>
  \<open>/^---\s+(.+)$/\<close> and \<open>/^\+\+\+\s+(.+)$/\<close>, applied to a line that starts with the
  three marker characters: \<open>matchMarker\<close> takes the rest of the line and returns group 1.
  The greedy \<open>\s+\<close> takes the whole leading white space; when nothing follows it, the
  matcher backtracks by one character, which group 1 then takes if \<open>.\<close> accepts it.
\<close>

definition matchMarker :: "string \<Rightarrow> string option" where
  "matchMarker rest =
     (let w = takeWhile isSpace rest; r = dropWhile isSpace rest in
      if w = [] then None
      else if r \<noteq> [] then (if list_all isDot r then Some r else None)
      else if 2 \<le> length w \<and> isDot (last w) then Some [last w]
      else None)"

subsection \<open>The hunk-header pattern\<close>

text \<open>
  \<open>/@@ -(\d+)(?:,(\d+))? \+(\d+)(?:,(\d+))? @@/\<close>, not anchored: the leftmost match wins.
  After a run of digits the pattern continues with a character that is no digit, so the
  greedy choices never need undoing and the match at one position is deterministic.
\<close>

fun matchLit :: "string \<Rightarrow> string \<Rightarrow> string option" where
  "matchLit [] s = Some s"
| "matchLit (p # ps) [] = None"
| "matchLit (p # ps) (c # cs) = (if p = c then matchLit ps cs else None)"

definition matchNum :: "string \<Rightarrow> (string \<times> string) option" where
  "matchNum s =
     (let ds = takeWhile isDigit s in
      if ds = [] then None else Some (ds, dropWhile isDigit s))"

definition matchOptCount :: "string \<Rightarrow> string option \<times> string" where
  "matchOptCount s =
     (case s of
        [] \<Rightarrow> (None, s)
      | c # r \<Rightarrow>
          (if c = CHR '','' then
             (case matchNum r of
                Some (ds, r') \<Rightarrow> (Some ds, r')
              | None \<Rightarrow> (None, s))
           else (None, s)))"

type_synonym hunkMatch = "string \<times> string option \<times> string \<times> string option"

definition matchHunkAt :: "string \<Rightarrow> hunkMatch option" where
  "matchHunkAt s =
     (case matchLit ''@@ -'' s of
        None \<Rightarrow> None
      | Some r1 \<Rightarrow>
     (case matchNum r1 of
        None \<Rightarrow> None
      | Some (g1, r2) \<Rightarrow>
     (case matchOptCount r2 of (g2, r3) \<Rightarrow>
     (case matchLit '' +'' r3 of
        None \<Rightarrow> None
      | Some r4 \<Rightarrow>
     (case matchNum r4 of
        None \<Rightarrow> None
      | Some (g3, r5) \<Rightarrow>
     (case matchOptCount r5 of (g4, r6) \<Rightarrow>
     (case matchLit '' @@'' r6 of
        None \<Rightarrow> None
      | Some r7 \<Rightarrow> Some (g1, g2, g3, g4))))))))"

fun matchHunk :: "string \<Rightarrow> hunkMatch option" where
  "matchHunk [] = matchHunkAt []"
| "matchHunk (c # cs) =
     (case matchHunkAt (c # cs) of
        Some m \<Rightarrow> Some m
      | None \<Rightarrow> matchHunk cs)"

subsection \<open>The scanning loop\<close>

text \<open>The local variables of \<open>parseDiff\<close>.\<close>

record parseState =
  changedFiles :: "ChangedFile list"
  currentFile :: "string option"
  curChangeType :: ChangeType
  curAddedLines :: "number list"
  curDeletedLines :: "number list"

definition initState :: parseState where
  "initState =
     \<lparr>changedFiles = [], currentFile = None, curChangeType = FileModified,
      curAddedLines = [], curDeletedLines = []\<rparr>"

text \<open>\<open>if (currentFile) changedFiles.push({...})\<close>: \<open>null\<close> and the empty string are falsy.\<close>

definition saveFile :: "parseState \<Rightarrow> ChangedFile list" where
  "saveFile s =
     (case currentFile s of
        None \<Rightarrow> changedFiles s
      | Some p \<Rightarrow>
          (if p = [] then changedFiles s
           else changedFiles s @
             [\<lparr>path = p, changeType = curChangeType s,
               addedLines = curAddedLines s, deletedLines = curDeletedLines s\<rparr>]))"

text \<open>
  \<open>for (let j = 0; j < count; j++) lines.push(start + j)\<close>. A push onto an array of
  \<open>2 ^ 32 - 1\<close> elements throws a RangeError, which nothing in the parser catches (the
  process may run out of memory before that; either way there is no result).
\<close>

function pushLines :: "number list \<Rightarrow> number \<Rightarrow> number \<Rightarrow> nat \<Rightarrow> error + number list" where
  "pushLines acc start count j =
     (if numLess j count then
        (if length acc < arrayLimit
         then pushLines (acc @ [numAdd start j]) start count (Suc j)
         else Inl ArrayLengthExceeded)
      else Inr acc)"
  by pat_completeness auto
termination
  by (relation "measure (\<lambda>(acc, start, count, j). arrayLimit - length acc)") auto

declare pushLines.simps [simp del]

definition onDiffHeader :: "parseState \<Rightarrow> string \<Rightarrow> parseState" where
  "onDiffHeader s line =
     (if startsWith line ''diff --git'' then
        \<lparr>changedFiles = saveFile s, currentFile = None, curChangeType = FileModified,
         curAddedLines = [], curDeletedLines = []\<rparr>
      else s)"

definition onOldMarker :: "parseState \<Rightarrow> string \<Rightarrow> parseState" where
  "onOldMarker s line =
     (if startsWith line ''---'' then
        (case matchMarker (drop 3 line) of
           None \<Rightarrow> s
         | Some m \<Rightarrow>
             (if m \<noteq> ''/dev/null'' then s\<lparr>currentFile := Some m\<rparr>
              else s\<lparr>curChangeType := FileAdded\<rparr>))
      else s)"

definition onNewMarker :: "parseState \<Rightarrow> string \<Rightarrow> parseState" where
  "onNewMarker s line =
     (if startsWith line ''+++'' then
        (case matchMarker (drop 3 line) of
           None \<Rightarrow> s
         | Some m \<Rightarrow>
             (if m \<noteq> ''/dev/null'' then s\<lparr>currentFile := Some m\<rparr>
              else s\<lparr>curChangeType := FileDeleted\<rparr>))
      else s)"

definition countOf :: "string option \<Rightarrow> number" where
  "countOf g = (case g of None \<Rightarrow> Finite 1 | Some ds \<Rightarrow> parseInt ds)"

definition onHunk :: "parseState \<Rightarrow> string \<Rightarrow> error + parseState" where
  "onHunk s line =
     (if startsWith line ''@@'' then
        (case matchHunk line of
           None \<Rightarrow> Inr s
         | Some (g1, g2, g3, g4) \<Rightarrow>
             (let oldStart = parseInt g1; oldCount = countOf g2;
                  newStart = parseInt g3; newCount = countOf g4
              in case pushLines (curDeletedLines s) oldStart oldCount 0 of
                   Inl e \<Rightarrow> Inl e
                 | Inr deleted \<Rightarrow>
                     (case pushLines (curAddedLines s) newStart newCount 0 of
                        Inl e \<Rightarrow> Inl e
                      | Inr added \<Rightarrow>
                          Inr (s\<lparr>curDeletedLines := deleted, curAddedLines := added\<rparr>))))
      else Inr s)"

text \<open>One iteration of the loop: the four tests run one after the other on every line.\<close>

definition step :: "parseState \<Rightarrow> string \<Rightarrow> error + parseState" where
  "step s line = onHunk (onNewMarker (onOldMarker (onDiffHeader s line) line) line) line"

fun scanLines :: "parseState \<Rightarrow> string list \<Rightarrow> error + parseState" where
  "scanLines s [] = Inr s"
| "scanLines s (line # rest) =
     (case step s line of
        Inl e \<Rightarrow> Inl e
      | Inr s' \<Rightarrow> scanLines s' rest)"

definition parseLines :: "string list \<Rightarrow> error + ChangedFile list" where
  "parseLines ls =
     (case scanLines initState ls of
        Inl e \<Rightarrow> Inl e
      | Inr s \<Rightarrow> Inr (saveFile s))"

definition parseDiff :: "string \<Rightarrow> error + ChangedFile list" where
  "parseDiff diff = parseLines (split_lines diff)"

subsection \<open>What a line declares, and file sections\<close>

text \<open>
  The line numbers a line declares when it is a hunk header the pattern accepts: the
  old-side range \<open>[oldStart, oldStart + oldCount)\<close> and the new-side range
  \<open>[newStart, newStart + newCount)\<close> of the numbers its digits write, a count that is
  left out being 1.
\<close>

definition declaredCountOf :: "string option \<Rightarrow> nat" where
  "declaredCountOf g = (case g of None \<Rightarrow> 1 | Some ds \<Rightarrow> decimalValue ds)"

definition declaredOld :: "string \<Rightarrow> nat list" where
  "declaredOld line =
     (if startsWith line ''@@'' then
        (case matchHunk line of
           None \<Rightarrow> []
         | Some (g1, g2, g3, g4) \<Rightarrow>
             [decimalValue g1..<decimalValue g1 + declaredCountOf g2])
      else [])"

definition declaredNew :: "string \<Rightarrow> nat list" where
  "declaredNew line =
     (if startsWith line ''@@'' then
        (case matchHunk line of
           None \<Rightarrow> []
         | Some (g1, g2, g3, g4) \<Rightarrow>
             [decimalValue g3..<decimalValue g3 + declaredCountOf g4])
      else [])"

text \<open>
  A line is within the exact range when it is no accepted hunk header, or its two ranges
  end at \<open>2 ^ 53\<close> at most: up to there every natural number is a double.
\<close>

definition withinExactRange :: "string \<Rightarrow> bool" where
  "withinExactRange line =
     (if startsWith line ''@@'' then
        (case matchHunk line of
           None \<Rightarrow> True
         | Some (g1, g2, g3, g4) \<Rightarrow>
             decimalValue g1 + declaredCountOf g2 \<le> 2 ^ 53 \<and>
             decimalValue g3 + declaredCountOf g4 \<le> 2 ^ 53)
      else True)"

definition isHeader :: "string \<Rightarrow> bool" where
  "isHeader l = startsWith l ''diff --git''"


text \<open>
  The path and the change type of a section, read off its marker lines: a marker for a
  path other than \<open>/dev/null\<close> sets the path; an old-file marker for \<open>/dev/null\<close> makes
  the change an addition, a new-file marker for it a deletion; the last one wins.
\<close>

definition markerOf :: "string \<Rightarrow> string option" where
  "markerOf line =
     (if startsWith line ''---'' \<or> startsWith line ''+++''
      then matchMarker (drop 3 line) else None)"

definition pathAfter :: "string option \<Rightarrow> string \<Rightarrow> string option" where
  "pathAfter p line =
     (case markerOf line of
        None \<Rightarrow> p
      | Some m \<Rightarrow> (if m = ''/dev/null'' then p else Some m))"

definition typeAfter :: "ChangeType \<Rightarrow> string \<Rightarrow> ChangeType" where
  "typeAfter ty line =
     (if markerOf line = Some ''/dev/null''
      then (if startsWith line ''---'' then FileAdded else FileDeleted)
      else ty)"





text \<open>The state with the files \<open>fs\<close> put before its changed files.\<close>

definition withFiles :: "ChangedFile list \<Rightarrow> parseState \<Rightarrow> parseState" where
  "withFiles fs s = s\<lparr>changedFiles := fs @ changedFiles s\<rparr>"

subsection \<open>Hunk headers as git writes them\<close>







section \<open>Syntax trees (the ts-morph capability)\<close>

text \<open>
  The part of a ts-morph syntax tree the analysis reads. Every node has its source text;
  a string literal has its value, a call expression its first and last line, its callee
  expression and its arguments.
\<close>

datatype node =
    StringLiteral (getText: string) (getLiteralValue: string)
  | CallExpression (getText: string) (getStartLineNumber: nat) (getEndLineNumber: nat)
      (getExpression: node) (getArguments: "node list")
  | OtherNode (getText: string) (getChildren: "node list")

text \<open>
  A source file: its statements, and the module specifiers of its import declarations
  (\<open>getImportDeclarations\<close> with \<open>getModuleSpecifierValue\<close>), in source order.
\<close>

record sourceFile =
  statements :: "node list"
  importSpecifiers :: "string list"

text \<open>
  \<open>getDescendantsOfKind(SyntaxKind.CallExpression)\<close>: the call expressions below a node,
  the node itself first, in source order.
\<close>

fun callsOf :: "node \<Rightarrow> node list" where
  "callsOf (StringLiteral t v) = []"
| "callsOf (CallExpression t s e ex args) =
     CallExpression t s e ex args # callsOf ex @ concat (map callsOf args)"
| "callsOf (OtherNode t cs) = concat (map callsOf cs)"

definition getCallExpressions :: "sourceFile \<Rightarrow> node list" where
  "getCallExpressions sf = concat (map callsOf (statements sf))"


section \<open>Test parser (parser/testParser.ts)\<close>

definition isTestCall :: "string \<Rightarrow> bool" where
  "isTestCall expressionText =
     (expressionText = ''test'' \<or>
      expressionText = ''test.skip'' \<or>
      expressionText = ''test.only'' \<or>
      expressionText = ''test.describe'' \<or>
      expressionText = ''test.fixme'')"

definition singleQuote :: char where
  "singleQuote = CHR 0x27"

definition doubleQuote :: char where
  "doubleQuote = CHR 0x22"

definition backQuote :: char where
  "backQuote = CHR 0x60"

text \<open>\<open>text.replace(/['"]/g, '')\<close>.\<close>

definition removeQuotes :: "string \<Rightarrow> string" where
  "removeQuotes t = filter (\<lambda>c. c \<noteq> singleQuote \<and> c \<noteq> doubleQuote) t"

definition nameOfArg :: "node \<Rightarrow> string" where
  "nameOfArg nameArg =
     (case nameArg of
        StringLiteral t v \<Rightarrow> v
      | _ \<Rightarrow> removeQuotes (getText nameArg))"

fun extractTestInfo :: "node \<Rightarrow> string \<Rightarrow> TestInfo option" where
  "extractTestInfo (CallExpression t s e ex args) fp =
     (if length args < 2 then None
      else Some \<lparr>name = nameOfArg (hd args), filePath = fp, startLine = s, endLine = e\<rparr>)"
| "extractTestInfo n fp = None"

text \<open>The loop of \<open>extractTests\<close> over the call expressions, pushing to \<open>tests\<close>.\<close>

fun extractLoop :: "node list \<Rightarrow> string \<Rightarrow> TestInfo list \<Rightarrow> TestInfo list" where
  "extractLoop [] fp tests = tests"
| "extractLoop (callExpr # rest) fp tests =
     (if isTestCall (getText (getExpression callExpr)) then
        (case extractTestInfo callExpr fp of
           Some testInfo \<Rightarrow> extractLoop rest fp (tests @ [testInfo])
         | None \<Rightarrow> extractLoop rest fp tests)
      else extractLoop rest fp tests)"

definition extractTests :: "sourceFile \<Rightarrow> string \<Rightarrow> TestInfo list" where
  "extractTests sf fp = extractLoop (getCallExpressions sf) fp []"

definition isLineInRange :: "number \<Rightarrow> nat \<Rightarrow> nat \<Rightarrow> bool" where
  "isLineInRange line startL endL = (numGe line startL \<and> numLe line endL)"

definition hasOverlap :: "number list \<Rightarrow> nat \<Rightarrow> nat \<Rightarrow> bool" where
  "hasOverlap lines startL endL = list_ex (\<lambda>line. isLineInRange line startL endL) lines"

section \<open>The collaborators\<close>

datatype fsEntry = File string | Directory string "fsEntry list"

text \<open>
  What the code reaches outside itself: \<open>git show\<close> (\<open>None\<close> when it rejects), the
  ts-morph parser on a text and on a path (\<open>None\<close> when the file cannot be added), the
  directory tree below the repository root (\<open>readdirSync\<close> and \<open>statSync\<close>: a finite tree,
  entries in listing order), \<open>existsSync\<close>, and the functions of Node's \<open>path\<close> module.
\<close>

record env =
  repoPath :: string
  gitShow :: "string list \<Rightarrow> string option"
  createSourceFile :: "string \<Rightarrow> sourceFile"
  addSourceFileAtPath :: "string \<Rightarrow> sourceFile option"
  repoTree :: "fsEntry list"
  existsSync :: "string \<Rightarrow> bool"
  pathJoin :: "string \<Rightarrow> string \<Rightarrow> string"
  pathResolve :: "string \<Rightarrow> string \<Rightarrow> string"
  pathDirname :: "string \<Rightarrow> string"
  pathRelative :: "string \<Rightarrow> string \<Rightarrow> string"

text \<open>A string or \<open>null\<close> in a condition: \<open>null\<close> and the empty string are falsy.\<close>

definition truthy :: "string option \<Rightarrow> bool" where
  "truthy c = (case c of None \<Rightarrow> False | Some t \<Rightarrow> t \<noteq> [])"

section \<open>Git operations\<close>

definition getCommitDiff :: "env \<Rightarrow> string \<Rightarrow> error + string" where
  "getCommitDiff env commitSha =
     (case gitShow env [commitSha, ''--unified=0'', ''--no-prefix''] of
        None \<Rightarrow> Inl (DiffFailed commitSha)
      | Some diff \<Rightarrow> Inr diff)"

definition getChangedFiles :: "env \<Rightarrow> string \<Rightarrow> error + ChangedFile list" where
  "getChangedFiles env commitSha =
     (case getCommitDiff env commitSha of
        Inl e \<Rightarrow> Inl e
      | Inr diff \<Rightarrow> parseDiff diff)"

definition getFileAtCommit :: "env \<Rightarrow> string \<Rightarrow> string \<Rightarrow> string option" where
  "getFileAtCommit env commitSha fp = gitShow env [commitSha @ '':'' @ fp]"

definition getFileBeforeCommit :: "env \<Rightarrow> string \<Rightarrow> string \<Rightarrow> string option" where
  "getFileBeforeCommit env commitSha fp = gitShow env [commitSha @ ''^:'' @ fp]"

text \<open>\<open>parseTestFile(filePath, content?)\<close>.\<close>

definition parseFromDisk :: "env \<Rightarrow> string \<Rightarrow> error + TestInfo list" where
  "parseFromDisk env fp =
     (case addSourceFileAtPath env fp of
        None \<Rightarrow> Inl (SourceFileNotFound fp)
      | Some sf \<Rightarrow> Inr (extractTests sf fp))"

definition parseTestFile :: "env \<Rightarrow> string \<Rightarrow> string option \<Rightarrow> error + TestInfo list" where
  "parseTestFile env fp content =
     (case content of
        None \<Rightarrow> parseFromDisk env fp
      | Some text \<Rightarrow>
          (if text \<noteq> [] then Inr (extractTests (createSourceFile env text) fp)
           else parseFromDisk env fp))"

section \<open>Import tracker (parser/importTracker.ts)\<close>

text \<open>\<open>extractImports\<close>: a file that cannot be added has no imports (the catch).\<close>

definition extractImports :: "env \<Rightarrow> string \<Rightarrow> string list" where
  "extractImports env fp =
     (case addSourceFileAtPath env fp of
        None \<Rightarrow> []
      | Some sf \<Rightarrow> importSpecifiers sf)"

text \<open>
  \<open>findFiles\<close> inside \<open>findAllSpecFiles\<close>: the paths it pushes while it walks the entries
  of \<open>dir\<close>, in the order of the pushes.
\<close>

fun findFiles :: "env \<Rightarrow> string \<Rightarrow> fsEntry list \<Rightarrow> string list" where
  "findFiles env dir [] = []"
| "findFiles env dir (File file # rest) =
     (if endsWith file ''.spec.ts'' then [pathJoin env dir file] else []) @
     findFiles env dir rest"
| "findFiles env dir (Directory file sub # rest) =
     (if \<not> startsWith file ''.'' \<and> file \<noteq> ''node_modules''
      then findFiles env (pathJoin env dir file) sub else []) @
     findFiles env dir rest"

definition findAllSpecFiles :: "env \<Rightarrow> string list" where
  "findAllSpecFiles env = findFiles env (repoPath env) (repoTree env)"

definition resolveImportPath :: "env \<Rightarrow> string \<Rightarrow> string \<Rightarrow> string" where
  "resolveImportPath env fromFile importPath =
     (if startsWith importPath ''.'' then
        (let fromDir = pathDirname env fromFile;
             resolved = pathResolve env fromDir importPath
         in if \<not> existsSync env resolved then
              (if existsSync env (resolved @ ''.ts'') then resolved @ ''.ts''
               else if existsSync env (pathJoin env resolved ''index.ts'')
                 then pathJoin env resolved ''index.ts''
               else resolved)
            else resolved)
      else importPath)"

definition normalizePath :: "env \<Rightarrow> string \<Rightarrow> string" where
  "normalizePath env fp = pathResolve env (repoPath env) fp"

text \<open>The inner loop of \<open>findTestFilesImporting\<close>: whether it reaches the push and the break.\<close>

fun importLoop :: "env \<Rightarrow> string \<Rightarrow> string \<Rightarrow> string list \<Rightarrow> bool" where
  "importLoop env specFile normalizedHelperPath [] = False"
| "importLoop env specFile normalizedHelperPath (importPath # rest) =
     (let resolvedImport = resolveImportPath env specFile importPath;
          normalizedImport = normalizePath env resolvedImport
      in if normalizedImport = normalizedHelperPath then True
         else importLoop env specFile normalizedHelperPath rest)"

fun specLoop :: "env \<Rightarrow> string \<Rightarrow> string list \<Rightarrow> string list \<Rightarrow> string list" where
  "specLoop env helperPath [] testFiles = testFiles"
| "specLoop env helperPath (specFile # rest) testFiles =
     (let imports = extractImports env specFile;
          normalizedHelperPath = normalizePath env helperPath
      in specLoop env helperPath rest
           (if importLoop env specFile normalizedHelperPath imports
            then testFiles @ [specFile] else testFiles))"

definition findTestFilesImporting :: "env \<Rightarrow> string \<Rightarrow> string list" where
  "findTestFilesImporting env helperPath =
     specLoop env helperPath (findAllSpecFiles env) []"

section \<open>Impact analyzer (analyzer/impactAnalyzer.ts)\<close>

definition isTestFile :: "string \<Rightarrow> bool" where
  "isTestFile fp = (endsWith fp ''.spec.ts'' \<or> endsWith fp ''.test.ts'')"

definition direct :: "ChangedFile \<Rightarrow> ImpactType \<Rightarrow> TestInfo \<Rightarrow> ImpactResult" where
  "direct changedFile ty test =
     \<lparr>testName = name test, resultPath = path changedFile, impactType = ty,
      isIndirect = None\<rparr>"

definition indirect :: "string \<Rightarrow> TestInfo \<Rightarrow> ImpactResult" where
  "indirect relativePath test =
     \<lparr>testName = name test, resultPath = relativePath, impactType = Modified,
      isIndirect = Some True\<rparr>"

text \<open>The three loops of the modified branch of \<open>analyzeTestFile\<close>, pushing to \<open>impacts\<close>.\<close>

fun findAdded ::
  "ChangedFile \<Rightarrow> TestInfo list \<Rightarrow> TestInfo list \<Rightarrow> ImpactResult list \<Rightarrow> ImpactResult list"
where
  "findAdded changedFile beforeTests [] impacts = impacts"
| "findAdded changedFile beforeTests (test # rest) impacts =
     (let existedBefore = list_ex (\<lambda>bt. name bt = name test) beforeTests in
      if \<not> existedBefore then
        (let isInAddedLines =
               hasOverlap (addedLines changedFile) (startLine test) (endLine test)
         in if isInAddedLines \<or> \<not> existedBefore
            then findAdded changedFile beforeTests rest
                   (impacts @ [direct changedFile Added test])
            else findAdded changedFile beforeTests rest impacts)
      else findAdded changedFile beforeTests rest impacts)"

fun findRemoved ::
  "ChangedFile \<Rightarrow> TestInfo list \<Rightarrow> TestInfo list \<Rightarrow> ImpactResult list \<Rightarrow> ImpactResult list"
where
  "findRemoved changedFile currentTests [] impacts = impacts"
| "findRemoved changedFile currentTests (test # rest) impacts =
     (let existsNow = list_ex (\<lambda>ct. name ct = name test) currentTests in
      if \<not> existsNow
      then findRemoved changedFile currentTests rest
             (impacts @ [direct changedFile Removed test])
      else findRemoved changedFile currentTests rest impacts)"

fun findModified ::
  "ChangedFile \<Rightarrow> TestInfo list \<Rightarrow> TestInfo list \<Rightarrow> ImpactResult list \<Rightarrow> ImpactResult list"
where
  "findModified changedFile beforeTests [] impacts = impacts"
| "findModified changedFile beforeTests (test # rest) impacts =
     (case find (\<lambda>bt. name bt = name test) beforeTests of
        None \<Rightarrow> findModified changedFile beforeTests rest impacts
      | Some beforeTest \<Rightarrow>
          (let hasChangesInTest =
                 hasOverlap (addedLines changedFile) (startLine test) (endLine test)
           in if hasChangesInTest then
                (let alreadyAdded =
                       list_ex (\<lambda>i. testName i = name test \<and> impactType i = Added) impacts
                 in if \<not> alreadyAdded
                    then findModified changedFile beforeTests rest
                           (impacts @ [direct changedFile Modified test])
                    else findModified changedFile beforeTests rest impacts)
              else findModified changedFile beforeTests rest impacts))"

definition analyzeModified ::
  "ChangedFile \<Rightarrow> TestInfo list \<Rightarrow> TestInfo list \<Rightarrow> ImpactResult list"
where
  "analyzeModified changedFile beforeTests currentTests =
     findModified changedFile beforeTests currentTests
       (findRemoved changedFile currentTests beforeTests
          (findAdded changedFile beforeTests currentTests []))"

definition analyzeTestFile :: "env \<Rightarrow> ChangedFile \<Rightarrow> string \<Rightarrow> error + ImpactResult list" where
  "analyzeTestFile env changedFile commitSha =
     (let fp = pathJoin env (repoPath env) (path changedFile) in
      if changeType changedFile = FileAdded then
        (let currentContent = getFileAtCommit env commitSha (path changedFile) in
         if truthy currentContent then
           (case parseTestFile env fp currentContent of
              Inl e \<Rightarrow> Inl e
            | Inr tests \<Rightarrow> Inr (map (direct changedFile Added) tests))
         else Inr [])
      else if changeType changedFile = FileDeleted then
        (let beforeContent = getFileBeforeCommit env commitSha (path changedFile) in
         if truthy beforeContent then
           (case parseTestFile env fp beforeContent of
              Inl e \<Rightarrow> Inl e
            | Inr tests \<Rightarrow> Inr (map (direct changedFile Removed) tests))
         else Inr [])
      else
        (let beforeContent = getFileBeforeCommit env commitSha (path changedFile);
             currentContent = getFileAtCommit env commitSha (path changedFile)
         in if truthy beforeContent \<and> truthy currentContent then
              (case parseTestFile env fp beforeContent of
                 Inl e \<Rightarrow> Inl e
               | Inr beforeTests \<Rightarrow>
                   (case parseTestFile env fp currentContent of
                      Inl e \<Rightarrow> Inl e
                    | Inr currentTests \<Rightarrow>
                        Inr (analyzeModified changedFile beforeTests currentTests)))
            else Inr []))"

text \<open>The loop of \<open>analyzeHelperFile\<close> over the importing test files.\<close>

fun helperLoop :: "env \<Rightarrow> string list \<Rightarrow> ImpactResult list \<Rightarrow> error + ImpactResult list" where
  "helperLoop env [] impacts = Inr impacts"
| "helperLoop env (testFilePath # rest) impacts =
     (case parseTestFile env testFilePath None of
        Inl e \<Rightarrow> Inl e
      | Inr tests \<Rightarrow>
          (let relativePath = pathRelative env (repoPath env) testFilePath
           in helperLoop env rest (impacts @ map (indirect relativePath) tests)))"

definition analyzeHelperFile :: "env \<Rightarrow> ChangedFile \<Rightarrow> error + ImpactResult list" where
  "analyzeHelperFile env changedFile =
     (let importingTestFiles =
            findTestFilesImporting env (pathJoin env (repoPath env) (path changedFile))
      in helperLoop env importingTestFiles [])"

text \<open>The two loops of \<open>analyzeCommit\<close>.\<close>

fun directLoop ::
  "env \<Rightarrow> string \<Rightarrow> ChangedFile list \<Rightarrow> ImpactResult list \<Rightarrow> error + ImpactResult list"
where
  "directLoop env commitSha [] impacts = Inr impacts"
| "directLoop env commitSha (testFile # rest) impacts =
     (case analyzeTestFile env testFile commitSha of
        Inl e \<Rightarrow> Inl e
      | Inr directImpacts \<Rightarrow> directLoop env commitSha rest (impacts @ directImpacts))"

fun indirectLoop ::
  "env \<Rightarrow> ChangedFile list \<Rightarrow> ImpactResult list \<Rightarrow> error + ImpactResult list"
where
  "indirectLoop env [] impacts = Inr impacts"
| "indirectLoop env (helperFile # rest) impacts =
     (case analyzeHelperFile env helperFile of
        Inl e \<Rightarrow> Inl e
      | Inr indirectImpacts \<Rightarrow> indirectLoop env rest (impacts @ indirectImpacts))"

text \<open>\<open>analyzeCommit\<close> from the changed files on.\<close>

definition analyzeChanged ::
  "env \<Rightarrow> string \<Rightarrow> ChangedFile list \<Rightarrow> error + ImpactResult list"
where
  "analyzeChanged env commitSha changed =
     (let testFiles = filter (\<lambda>f. isTestFile (path f)) changed;
          helperFiles =
            filter (\<lambda>f. \<not> isTestFile (path f) \<and> endsWith (path f) ''.ts'') changed
      in case directLoop env commitSha testFiles [] of
           Inl e \<Rightarrow> Inl e
         | Inr impacts \<Rightarrow> indirectLoop env helperFiles impacts)"

definition analyzeCommit :: "env \<Rightarrow> string \<Rightarrow> error + ImpactResult list" where
  "analyzeCommit env commitSha =
     (case getChangedFiles env commitSha of
        Inl e \<Rightarrow> Inl e
      | Inr changed \<Rightarrow> analyzeChanged env commitSha changed)"


section \<open>The specification's reading of two operations\<close>

text \<open>
  Every file of the tree below \<open>dir\<close>, with its path and its name, directories first
  entered in listing order; hidden directories and \<open>node_modules\<close> are not entered.
\<close>

fun visibleFiles :: "env \<Rightarrow> string \<Rightarrow> fsEntry list \<Rightarrow> (string \<times> string) list" where
  "visibleFiles env dir [] = []"
| "visibleFiles env dir (File file # rest) =
     (pathJoin env dir file, file) # visibleFiles env dir rest"
| "visibleFiles env dir (Directory file sub # rest) =
     (if startsWith file ''.'' \<or> file = ''node_modules'' then []
      else visibleFiles env (pathJoin env dir file) sub) @
     visibleFiles env dir rest"

text \<open>
  Some import of \<open>fromFile\<close>, resolved against \<open>fromFile\<close>, is path-equal to \<open>target\<close>
  after normalization.
\<close>

definition importsTarget :: "env \<Rightarrow> string \<Rightarrow> string \<Rightarrow> bool" where
  "importsTarget env target fromFile =
     list_ex (\<lambda>importPath.
        normalizePath env (resolveImportPath env fromFile importPath) =
        normalizePath env target) (extractImports env fromFile)"

text \<open>
  The test files importing \<open>target\<close>, a test file being a file whose path ends with one
  of the two suffixes of \<open>isTestFile\<close>.
\<close>

definition testFilesImporting :: "env \<Rightarrow> string \<Rightarrow> string list" where
  "testFilesImporting env target =
     filter (importsTarget env target)
       (map fst (filter (\<lambda>(p, file). isTestFile p)
          (visibleFiles env (repoPath env) (repoTree env))))"

text \<open>The same with the one suffix \<open>.spec.ts\<close>, looked for at the end of the file name.\<close>

definition specFilesImporting :: "env \<Rightarrow> string \<Rightarrow> string list" where
  "specFilesImporting env target =
     filter (importsTarget env target)
       (map fst (filter (\<lambda>(p, file). endsWith file ''.spec.ts'')
          (visibleFiles env (repoPath env) (repoTree env))))"

text \<open>
  A source text with only its quote delimiters stripped: the first and the last character
  go when they are the same quote character; the characters between them stay.
\<close>

definition isQuote :: "char \<Rightarrow> bool" where
  "isQuote c = (c = singleQuote \<or> c = doubleQuote \<or> c = backQuote)"

definition stripQuoteDelimiters :: "string \<Rightarrow> string" where
  "stripQuoteDelimiters t =
     (if 2 \<le> length t \<and> isQuote (hd t) \<and> last t = hd t then butlast (tl t) else t)"



section \<open>A repository for the examples\<close>

text \<open>
  Node's \<open>path\<close> functions on absolute POSIX paths, as far as the examples need them:
  a path is cut at the slashes, empty and \<open>.\<close> segments go, \<open>..\<close> drops the segment
  before it.
\<close>

fun segments :: "string \<Rightarrow> string list" where
  "segments [] = [[]]"
| "segments (c # cs) =
     (if c = CHR ''/'' then [] # segments cs
      else (case segments cs of
              [] \<Rightarrow> [[c]]
            | l # ls \<Rightarrow> (c # l) # ls))"

fun normSegments :: "string list \<Rightarrow> string list \<Rightarrow> string list" where
  "normSegments acc [] = rev acc"
| "normSegments acc (seg # rest) =
     (if seg = [] \<or> seg = ''.'' then normSegments acc rest
      else if seg = ''..'' then normSegments (tl acc) rest
      else normSegments (seg # acc) rest)"

definition fromSegments :: "string list \<Rightarrow> string" where
  "fromSegments segs = (if segs = [] then ''/'' else concat (map (\<lambda>seg. CHR ''/'' # seg) segs))"

definition posixNormalize :: "string \<Rightarrow> string" where
  "posixNormalize p = fromSegments (normSegments [] (segments p))"

definition posixJoin :: "string \<Rightarrow> string \<Rightarrow> string" where
  "posixJoin a b = posixNormalize (a @ ''/'' @ b)"

definition posixResolve :: "string \<Rightarrow> string \<Rightarrow> string" where
  "posixResolve base p =
     (if startsWith p ''/'' then posixNormalize p else posixNormalize (base @ ''/'' @ p))"

definition posixDirname :: "string \<Rightarrow> string" where
  "posixDirname p = fromSegments (butlast (normSegments [] (segments p)))"

definition posixRelative :: "string \<Rightarrow> string \<Rightarrow> string" where
  "posixRelative base p =
     (if startsWith p (base @ ''/'') then drop (Suc (length base)) p else p)"

text \<open>
  The syntax trees of the example files. \<open>tests/a.spec.ts\<close> at the commit:
  \<^verbatim>\<open>
  1  test.describe('login', () => {
  2    test('logs in', async () => {
  3      await login(page);
  4    });
  5    test('logs out', async () => {
  6      await logout(page);
  7    });
  8  });
  \<close>
  Before the commit it held the describe block with the first test only.
\<close>

definition ident :: "string \<Rightarrow> node" where
  "ident t = OtherNode t []"

definition quoted :: "string \<Rightarrow> node" where
  "quoted v = StringLiteral (singleQuote # v @ [singleQuote]) v"

definition logsIn :: node where
  "logsIn =
     CallExpression ''test(logs in)'' 2 4 (ident ''test'')
       [quoted ''logs in'',
        OtherNode ''async () => { await login(page); }''
          [CallExpression ''login(page)'' 3 3 (ident ''login'') [ident ''page'']]]"

definition logsOut :: node where
  "logsOut =
     CallExpression ''test(logs out)'' 5 7 (ident ''test'')
       [quoted ''logs out'',
        OtherNode ''async () => { await logout(page); }''
          [CallExpression ''logout(page)'' 6 6 (ident ''logout'') [ident ''page'']]]"

definition describeLogin :: node where
  "describeLogin =
     CallExpression ''test.describe(login)'' 1 8 (OtherNode ''test.describe'' [])
       [quoted ''login'', OtherNode ''() => { ... }'' [logsIn, logsOut]]"

definition describeLoginBefore :: node where
  "describeLoginBefore =
     CallExpression ''test.describe(login)'' 1 5 (OtherNode ''test.describe'' [])
       [quoted ''login'', OtherNode ''() => { ... }'' [logsIn]]"

definition sourceA :: sourceFile where
  "sourceA =
     \<lparr>statements = [OtherNode ''test.describe(login);'' [describeLogin]],
      importSpecifiers = [''@playwright/test'', ''../helpers/login'']\<rparr>"

definition sourceABefore :: sourceFile where
  "sourceABefore =
     \<lparr>statements = [OtherNode ''test.describe(login);'' [describeLoginBefore]],
      importSpecifiers = [''@playwright/test'', ''../helpers/login'']\<rparr>"

definition sourceOf :: "string \<Rightarrow> string list \<Rightarrow> sourceFile" where
  "sourceOf title imports =
     \<lparr>statements =
        [OtherNode ''test(...);''
           [CallExpression ''test(...)'' 3 5 (ident ''test'')
              [quoted title, OtherNode ''async () => {}'' []]]],
      importSpecifiers = imports\<rparr>"

definition emptySource :: sourceFile where
  "emptySource = \<lparr>statements = [], importSpecifiers = []\<rparr>"

text \<open>
  The example repository \<open>/repo\<close>: two helpers; \<open>a.spec.ts\<close> and \<open>c.test.ts\<close> import
  \<open>helpers/login.ts\<close>, \<open>b.spec.ts\<close> imports \<open>helpers/other.ts\<close>.
\<close>

definition exampleTree :: "fsEntry list" where
  "exampleTree =
     [Directory ''.git'' [File ''hook.spec.ts''],
      Directory ''node_modules'' [Directory ''pkg'' [File ''pkg.spec.ts'']],
      Directory ''helpers'' [File ''login.ts'', File ''other.ts''],
      Directory ''tests'' [File ''a.spec.ts'', File ''b.spec.ts'', File ''c.test.ts''],
      File ''README.md'']"

definition exampleDisk :: "string \<Rightarrow> sourceFile option" where
  "exampleDisk p =
     (if p = ''/repo/tests/a.spec.ts'' then Some sourceA
      else if p = ''/repo/tests/b.spec.ts'' then Some (sourceOf ''other'' [''../helpers/other''])
      else if p = ''/repo/tests/c.test.ts'' then Some (sourceOf ''third'' [''../helpers/login''])
      else if p = ''/repo/helpers/login.ts'' then Some emptySource
      else if p = ''/repo/helpers/other.ts'' then Some emptySource
      else None)"

definition exampleParse :: "string \<Rightarrow> sourceFile" where
  "exampleParse text =
     (if text = ''a.spec.ts at the commit'' then sourceA
      else if text = ''a.spec.ts before the commit'' then sourceABefore
      else emptySource)"

text \<open>
  The commit \<open>c1\<close> of the example: it adds the second test to \<open>tests/a.spec.ts\<close>
  (lines 5 to 7 are new), changes a line of \<open>helpers/login.ts\<close>, and deletes
  \<open>tests/old.spec.ts\<close>, whose content at the parent cannot be had.
\<close>

definition exampleDiffLines :: "string list" where
  "exampleDiffLines =
     [''diff --git tests/a.spec.ts tests/a.spec.ts'',
      ''--- tests/a.spec.ts'',
      ''+++ tests/a.spec.ts'',
      ''@@ -4,0 +5,3 @@'',
      ''diff --git helpers/login.ts helpers/login.ts'',
      ''--- helpers/login.ts'',
      ''+++ helpers/login.ts'',
      ''@@ -2 +2 @@'',
      ''diff --git tests/old.spec.ts tests/old.spec.ts'',
      ''--- tests/old.spec.ts'',
      ''+++ /dev/null'',
      ''@@ -1,9 +0,0 @@'']"

definition unlines :: "string list \<Rightarrow> string" where
  "unlines ls = tl (concat (map (\<lambda>l. newline # l) ls))"

definition exampleGit :: "string list \<Rightarrow> string option" where
  "exampleGit args =
     (if args = [''c1'', ''--unified=0'', ''--no-prefix''] then Some (unlines exampleDiffLines)
      else if args = [''c1:tests/a.spec.ts''] then Some ''a.spec.ts at the commit''
      else if args = [''c1^:tests/a.spec.ts''] then Some ''a.spec.ts before the commit''
      else None)"

definition exampleEnv :: env where
  "exampleEnv =
     \<lparr>repoPath = ''/repo'',
      gitShow = exampleGit,
      createSourceFile = exampleParse,
      addSourceFileAtPath = exampleDisk,
      repoTree = exampleTree,
      existsSync = (\<lambda>p. exampleDisk p \<noteq> None),
      pathJoin = posixJoin,
      pathResolve = posixResolve,
      pathDirname = posixDirname,
      pathRelative = posixRelative\<rparr>"


text \<open>
  A diff as \<open>git show --unified=0 --no-prefix\<close> prints it for a commit that removes
  line 3 of \<open>notes.sql\<close>, the SQL comment \<open>-- /dev/null\<close>: the last line is the
  removed line behind its \<open>-\<close> sign.
\<close>

definition commentDiff :: string where
  "commentDiff = unlines
     [''diff --git notes.sql notes.sql'',
      ''index 1a2b3c4..5d6e7f8 100644'',
      ''--- notes.sql'',
      ''+++ notes.sql'',
      ''@@ -3 +2,0 @@'',
      ''--- /dev/null'']"

text \<open>\<open>test(`it's`, async () => {})\<close>: the first argument is a template literal.\<close>




definition templateCall :: node where
  "templateCall =
     CallExpression ''test(...)'' 1 3 (ident ''test'')
       [OtherNode (backQuote # ''it'' @ [singleQuote] @ ''s'' @ [backQuote]) [],
        OtherNode ''async () => {}'' []]"


text \<open>The three conditions of the modified branch, on a test block.\<close>

definition nameIn :: "TestInfo list \<Rightarrow> TestInfo \<Rightarrow> bool" where
  "nameIn tests t = list_ex (\<lambda>u. name u = name t) tests"

definition overlaps :: "ChangedFile \<Rightarrow> TestInfo \<Rightarrow> bool" where
  "overlaps cf t = hasOverlap (addedLines cf) (startLine t) (endLine t)"

definition alreadyAdded :: "ImpactResult list \<Rightarrow> string \<Rightarrow> bool" where
  "alreadyAdded impacts n = list_ex (\<lambda>i. testName i = n \<and> impactType i = Added) impacts"

text \<open>What \<open>analyzeTestFile\<close> returns inside \<open>Inr\<close>.\<close>

definition testFileImpacts :: "env \<Rightarrow> string \<Rightarrow> ChangedFile \<Rightarrow> ImpactResult list" where
  "testFileImpacts env sha cf =
     (case analyzeTestFile env cf sha of Inl e \<Rightarrow> [] | Inr impacts \<Rightarrow> impacts)"

text \<open>The three changed files of the example commit, as \<open>parseDiff\<close> returns them.\<close>

definition changedA :: ChangedFile where
  "changedA =
     \<lparr>path = ''tests/a.spec.ts'', changeType = FileModified,
      addedLines = map Finite [5, 6, 7], deletedLines = []\<rparr>"

definition changedLogin :: ChangedFile where
  "changedLogin =
     \<lparr>path = ''helpers/login.ts'', changeType = FileModified,
      addedLines = map Finite [2], deletedLines = map Finite [2]\<rparr>"

definition changedOld :: ChangedFile where
  "changedOld =
     \<lparr>path = ''tests/old.spec.ts'', changeType = FileDeleted, addedLines = [],
      deletedLines = map Finite [1, 2, 3, 4, 5, 6, 7, 8, 9]\<rparr>"

text \<open>
  The example repository with one import changed: \<open>tests/b.spec.ts\<close> imports the
  non-relative specifier \<open>helpers/login.ts\<close>.
\<close>

definition bareImportEnv :: env where
  "bareImportEnv =
     exampleEnv\<lparr>addSourceFileAtPath :=
       (\<lambda>p. if p = ''/repo/tests/b.spec.ts''
             then Some (sourceOf ''other'' [''helpers/login.ts''])
             else exampleDisk p)\<rparr>"

section \<open>Numbers: lemmas\<close>

text \<open>
  The two thresholds compared as integers: the same functions, in a form that evaluates
  without counting up to the threshold.
\<close>

lemma toNumber_int [code]:
  "toNumber n =
     (if int n < 9007199254740992 then Finite n
      else (let v = roundTo (exponentFrom n 1) n
            in if v < 2 ^ 1024 then Finite v else Infinity))"
  by (simp add: toNumber_def)

lemma pushLines_int [code]:
  "pushLines acc start count j =
     (if numLess j count then
        (if int (length acc) < 4294967295
         then pushLines (acc @ [numAdd start j]) start count (Suc j)
         else Inl ArrayLengthExceeded)
      else Inr acc)"
  by (subst pushLines.simps) (simp add: arrayLimit_def)

lemma exponentFrom_least: "n < 2 ^ (53 + e) \<Longrightarrow> exponentFrom n e = e"
  by (subst exponentFrom.simps) simp

lemma toNumber_exact: "n \<le> 2 ^ 53 \<Longrightarrow> toNumber n = Finite n"
proof (cases "n < 2 ^ 53")
  case True
  then show ?thesis by (simp add: toNumber_def)
next
  case False
  assume "n \<le> 2 ^ 53"
  with False have n: "n = 2 ^ 53" by simp
  have "exponentFrom n 1 = 1" unfolding n by (rule exponentFrom_least) simp
  then show ?thesis by (simp add: toNumber_def roundTo_def Let_def n)
qed

section \<open>The diff parser: lemmas\<close>

lemma pushLines_exact:
  assumes "a + c \<le> 2 ^ 53" and "pushLines acc (Finite a) (Finite c) j = Inr r"
  shows "r = acc @ map Finite [a + j..<a + c]"
  using assms(2)
proof (induction acc "Finite a" "Finite c" j arbitrary: r rule: pushLines.induct)
  case (1 acc j)
  show ?case
  proof (cases "j < c")
    case True
    with "1.prems" have limit: "length acc < arrayLimit"
      by (subst (asm) pushLines.simps) (simp split: if_splits)
    from True assms(1) have sum: "toNumber (a + j) = Finite (a + j)"
      by (simp add: toNumber_exact)
    from True limit "1.prems"
    have "pushLines (acc @ [numAdd (Finite a) j]) (Finite a) (Finite c) (Suc j) = Inr r"
      by (subst (asm) pushLines.simps) simp
    with True limit have "r = (acc @ [numAdd (Finite a) j]) @ map Finite [a + Suc j..<a + c]"
      by (intro "1.hyps") simp_all
    moreover from True have "[a + j..<a + c] = (a + j) # [a + Suc j..<a + c]"
      by (simp add: upt_conv_Cons)
    ultimately show ?thesis by (simp add: sum)
  next
    case False
    with "1.prems" show ?thesis by (subst (asm) pushLines.simps) simp
  qed
qed





lemma header_not_other:
  "isHeader l \<Longrightarrow> \<not> startsWith l ''@@'' \<and> \<not> startsWith l ''---'' \<and> \<not> startsWith l ''+++''"
  by (cases l) (auto simp: startsWith_def isHeader_def)

lemma old_not_new: "startsWith l ''---'' \<Longrightarrow> \<not> startsWith l ''+++''"
  by (cases l) (auto simp: startsWith_def)



lemma marker_fields [simp]:
  "changedFiles (onOldMarker s l) = changedFiles s"
  "curAddedLines (onOldMarker s l) = curAddedLines s"
  "curDeletedLines (onOldMarker s l) = curDeletedLines s"
  "changedFiles (onNewMarker s l) = changedFiles s"
  "curAddedLines (onNewMarker s l) = curAddedLines s"
  "curDeletedLines (onNewMarker s l) = curDeletedLines s"
  by (simp_all add: onOldMarker_def onNewMarker_def split: option.splits)

lemma markers_path:
  "currentFile (onNewMarker (onOldMarker s l) l) = pathAfter (currentFile s) l"
  using old_not_new[of l]
  by (auto simp: onOldMarker_def onNewMarker_def pathAfter_def markerOf_def
        split: option.splits)

lemma markers_type:
  "curChangeType (onNewMarker (onOldMarker s l) l) = typeAfter (curChangeType s) l"
  using old_not_new[of l]
  by (auto simp: onOldMarker_def onNewMarker_def typeAfter_def markerOf_def
        split: option.splits)

lemma onHunk_exact:
  assumes "withinExactRange l" and "onHunk s l = Inr t"
  shows "changedFiles t = changedFiles s \<and> currentFile t = currentFile s
     \<and> curChangeType t = curChangeType s
     \<and> curAddedLines t = curAddedLines s @ map Finite (declaredNew l)
     \<and> curDeletedLines t = curDeletedLines s @ map Finite (declaredOld l)"
proof (cases "startsWith l ''@@''")
  case False
  with assms(2) show ?thesis by (simp add: onHunk_def declaredNew_def declaredOld_def)
next
  case True
  show ?thesis
  proof (cases "matchHunk l")
    case None
    with True assms(2) show ?thesis by (simp add: onHunk_def declaredNew_def declaredOld_def)
  next
    case (Some m)
    obtain g1 g2 g3 g4 where m: "m = (g1, g2, g3, g4)" by (cases m) auto
    let ?os = "decimalValue g1" and ?oc = "declaredCountOf g2"
    let ?ns = "decimalValue g3" and ?nc = "declaredCountOf g4"
    from assms(1) True Some m have b: "?os + ?oc \<le> 2 ^ 53" "?ns + ?nc \<le> 2 ^ 53"
      by (simp_all add: withinExactRange_def)
    have cnt: "countOf g = Finite (declaredCountOf g)" if "declaredCountOf g \<le> 2 ^ 53" for g
      using that by (cases g) (simp_all add: countOf_def declaredCountOf_def parseInt_def toNumber_exact)
    from b have n: "parseInt g1 = Finite ?os" "countOf g2 = Finite ?oc"
      "parseInt g3 = Finite ?ns" "countOf g4 = Finite ?nc"
      by (simp_all add: parseInt_def toNumber_exact cnt)
    from assms(2) True Some m n obtain d a where
      r: "pushLines (curDeletedLines s) (Finite ?os) (Finite ?oc) 0 = Inr d"
         "pushLines (curAddedLines s) (Finite ?ns) (Finite ?nc) 0 = Inr a"
         "t = s\<lparr>curDeletedLines := d, curAddedLines := a\<rparr>"
      by (auto simp: onHunk_def Let_def split: sum.splits)
    from pushLines_exact[OF b(1) r(1)] pushLines_exact[OF b(2) r(2)] r(3) True Some m
    show ?thesis by (simp add: declaredNew_def declaredOld_def)
  qed
qed

lemma step_exact:
  assumes "\<not> isHeader l" and "withinExactRange l" and "step s l = Inr t"
  shows "changedFiles t = changedFiles s
     \<and> currentFile t = pathAfter (currentFile s) l
     \<and> curChangeType t = typeAfter (curChangeType s) l
     \<and> curAddedLines t = curAddedLines s @ map Finite (declaredNew l)
     \<and> curDeletedLines t = curDeletedLines s @ map Finite (declaredOld l)"
proof -
  from assms(1) have h: "onDiffHeader s l = s" by (simp add: onDiffHeader_def isHeader_def)
  from assms(3) have "onHunk (onNewMarker (onOldMarker s l) l) l = Inr t"
    by (simp add: step_def h)
  from onHunk_exact[OF assms(2) this] show ?thesis
    by (simp add: markers_path markers_type)
qed



text \<open>Files already pushed stay in front, whatever is scanned next.\<close>

lemma withFiles_simps [simp]:
  "saveFile (withFiles fs s) = fs @ saveFile s"
  "withFiles [] s = s"
  "withFiles fs (withFiles gs s) = withFiles (fs @ gs) s"
  "changedFiles (withFiles fs s) = fs @ changedFiles s"
  by (simp_all add: withFiles_def saveFile_def split: option.splits)



lemma step_header: "isHeader h \<Longrightarrow> step s h = Inr (withFiles (saveFile s) initState)"
  using header_not_other[of h]
  by (simp add: step_def onOldMarker_def onNewMarker_def onHunk_def)
     (simp add: onDiffHeader_def isHeader_def withFiles_def initState_def)






text \<open>
  The parse returns when every accepted hunk header is within the exact range and the
  declared line numbers of the input, old side and new side, fit an array.
\<close>

lemma pushLines_returns:
  assumes "a + c \<le> 2 ^ 53" and "j \<le> c" and "length acc + (c - j) \<le> arrayLimit"
  shows "pushLines acc (Finite a) (Finite c) j = Inr (acc @ map Finite [a + j..<a + c])"
  using assms(2,3)
proof (induction acc "Finite a" "Finite c" j rule: pushLines.induct)
  case (1 acc j)
  show ?case
  proof (cases "j < c")
    case True
    with "1.prems" have limit: "length acc < arrayLimit" by simp
    from True assms(1) have sum: "toNumber (a + j) = Finite (a + j)"
      by (simp add: toNumber_exact)
    from True limit "1.prems"
    have "pushLines (acc @ [numAdd (Finite a) j]) (Finite a) (Finite c) (Suc j) =
        Inr ((acc @ [numAdd (Finite a) j]) @ map Finite [a + Suc j..<a + c])"
      by (intro "1.hyps") simp_all
    moreover from True have "[a + j..<a + c] = (a + j) # [a + Suc j..<a + c]"
      by (simp add: upt_conv_Cons)
    ultimately show ?thesis
      using True limit by (subst pushLines.simps) (simp add: sum)
  next
    case False
    then show ?thesis by (subst pushLines.simps) simp
  qed
qed

lemma onHunk_returns:
  assumes "withinExactRange l"
    and "length (curAddedLines s) + length (declaredNew l) \<le> arrayLimit"
    and "length (curDeletedLines s) + length (declaredOld l) \<le> arrayLimit"
  shows "\<exists>t. onHunk s l = Inr t"
proof (cases "startsWith l ''@@''")
  case False
  then show ?thesis by (simp add: onHunk_def)
next
  case True
  show ?thesis
  proof (cases "matchHunk l")
    case None
    with True show ?thesis by (simp add: onHunk_def)
  next
    case (Some m)
    obtain g1 g2 g3 g4 where m: "m = (g1, g2, g3, g4)" by (cases m) auto
    let ?os = "decimalValue g1" and ?oc = "declaredCountOf g2"
    let ?ns = "decimalValue g3" and ?nc = "declaredCountOf g4"
    from assms(1) True Some m have b: "?os + ?oc \<le> 2 ^ 53" "?ns + ?nc \<le> 2 ^ 53"
      by (simp_all add: withinExactRange_def)
    have cnt: "countOf g = Finite (declaredCountOf g)" if "declaredCountOf g \<le> 2 ^ 53" for g
      using that
      by (cases g) (simp_all add: countOf_def declaredCountOf_def parseInt_def toNumber_exact)
    from b have n: "parseInt g1 = Finite ?os" "countOf g2 = Finite ?oc"
      "parseInt g3 = Finite ?ns" "countOf g4 = Finite ?nc"
      by (simp_all add: parseInt_def toNumber_exact cnt)
    from assms(2,3) True Some m
    have len: "length (curDeletedLines s) + (?oc - 0) \<le> arrayLimit"
      "length (curAddedLines s) + (?nc - 0) \<le> arrayLimit"
      by (simp_all add: declaredNew_def declaredOld_def)
    from pushLines_returns[OF b(1) _ len(1)] pushLines_returns[OF b(2) _ len(2)] True Some m n
    show ?thesis by (simp add: onHunk_def Let_def)
  qed
qed

lemma scan_returns:
  assumes "list_all withinExactRange ls"
    and "length (curAddedLines s) + length (concat (map declaredNew ls)) \<le> arrayLimit"
    and "length (curDeletedLines s) + length (concat (map declaredOld ls)) \<le> arrayLimit"
  shows "\<exists>t. scanLines s ls = Inr t"
  using assms
proof (induction ls arbitrary: s)
  case Nil
  then show ?case by simp
next
  case (Cons l ls)
  from Cons.prems(1) have l: "withinExactRange l" and rest: "list_all withinExactRange ls"
    by simp_all
  show ?case
  proof (cases "isHeader l")
    case True
    let ?u = "withFiles (saveFile s) initState"
    from Cons.prems(2,3) have "\<exists>t. scanLines ?u ls = Inr t"
      by (intro Cons.IH[OF rest]) (simp_all add: withFiles_def initState_def)
    with step_header[OF True, of s] show ?thesis by simp
  next
    case False
    let ?u = "onNewMarker (onOldMarker s l) l"
    from False have st: "step s l = onHunk ?u l"
      by (simp add: step_def onDiffHeader_def isHeader_def)
    from Cons.prems(2,3) have "\<exists>t. onHunk ?u l = Inr t"
      by (intro onHunk_returns[OF l]) simp_all
    then obtain t where t: "step s l = Inr t" using st by auto
    from step_exact[OF False l t] Cons.prems(2,3) have "\<exists>v. scanLines t ls = Inr v"
      by (intro Cons.IH[OF rest]) simp_all
    with t show ?thesis by simp
  qed
qed

lemma parse_returns:
  assumes "list_all withinExactRange (split_lines diff)"
    and "length (concat (map declaredNew (split_lines diff))) \<le> arrayLimit"
    and "length (concat (map declaredOld (split_lines diff))) \<le> arrayLimit"
  shows "\<exists>files. parseDiff diff = Inr files"
proof -
  from scan_returns[OF assms(1), of initState] assms(2,3)
  obtain t where "scanLines initState (split_lines diff) = Inr t"
    by (auto simp: initState_def)
  then show ?thesis by (simp add: parseDiff_def parseLines_def)
qed
















section \<open>The diff parser: claims\<close>










text \<open>
  C4. The invariant fails on \<open>commentDiff\<close>, a diff git prints: the removed line
  \<open>-- /dev/null\<close> stands in the hunk body as \<open>--- /dev/null\<close> and is read as the
  old-file marker of a file that did not exist, so the changed file comes out as added
  while line 3 is recorded as deleted.
\<close>

theorem invariant_counterexample:
  "parseDiff commentDiff =
     Inr [\<lparr>path = ''notes.sql'', changeType = FileAdded, addedLines = [],
           deletedLines = [Finite 3]\<rparr>]"
  by code_simp

section \<open>The test parser: lemmas\<close>









lemma removeQuotes_set:
  "set (removeQuotes t) = set t - {singleQuote, doubleQuote}"
  by (auto simp: removeQuotes_def)

section \<open>The test parser: claims\<close>

text \<open>
  C3, as amended. For a recognized test call with at least two arguments, the extracted
  name is the literal value of the first argument when that is a string literal;
  otherwise it is the argument's source text with every single-quote and every
  double-quote character removed, wherever it stands, and every other character (a
  backquote too) kept in place.
\<close>

theorem name_of_first_argument:
  assumes "isTestCall (getText ex)"
  shows "extractLoop [CallExpression t s e ex (StringLiteral txt v # body # others)] fp []
           = [\<lparr>name = v, filePath = fp, startLine = s, endLine = e\<rparr>]
         \<and> ((\<forall>txt' v'. nameArg \<noteq> StringLiteral txt' v') \<longrightarrow>
              extractLoop [CallExpression t s e ex (nameArg # body # others)] fp []
                = [\<lparr>name = removeQuotes (getText nameArg), filePath = fp,
                     startLine = s, endLine = e\<rparr>]
              \<and> removeQuotes (getText nameArg)
                   = filter (\<lambda>c. c \<noteq> singleQuote \<and> c \<noteq> doubleQuote) (getText nameArg)
              \<and> set (removeQuotes (getText nameArg))
                   = set (getText nameArg) - {singleQuote, doubleQuote})"
  using assms
  by (cases nameArg) (auto simp: nameOfArg_def removeQuotes_def)

theorem name_of_first_argument_witness:
  "isTestCall (getText (ident ''test.only''))
   \<and> extractLoop [CallExpression ''c'' 4 6 (ident ''test.only'')
        [StringLiteral (doubleQuote # ''it'' @ [singleQuote] @ ''s ok'' @ [doubleQuote])
           (''it'' @ [singleQuote] @ ''s ok''), ident ''fn'']] ''f'' []
       = [\<lparr>name = ''it'' @ [singleQuote] @ ''s ok'', filePath = ''f'', startLine = 4, endLine = 6\<rparr>]
   \<and> extractLoop [CallExpression ''c'' 4 6 (ident ''test.only'')
        [OtherNode (''title + '' @ [doubleQuote] @ ''!'' @ [doubleQuote]) [], ident ''fn'']] ''f'' []
       = [\<lparr>name = ''title + !'', filePath = ''f'', startLine = 4, endLine = 6\<rparr>]"
proof -
  have a: "isTestCall (getText (ident ''test.only''))" by (simp add: isTestCall_def ident_def)
  have b: "\<forall>txt' v'. OtherNode (''title + '' @ [doubleQuote] @ ''!'' @ [doubleQuote]) [] \<noteq> StringLiteral txt' v'"
    by simp
  have c: "removeQuotes (''title + '' @ [doubleQuote] @ ''!'' @ [doubleQuote]) = ''title + !''"
    by (simp add: removeQuotes_def singleQuote_def doubleQuote_def)
  from name_of_first_argument[OF a, of "''c''" 4 6
      "doubleQuote # ''it'' @ [singleQuote] @ ''s ok'' @ [doubleQuote]"
      "''it'' @ [singleQuote] @ ''s ok''" "ident ''fn''" "[]" "''f''"
      "OtherNode (''title + '' @ [doubleQuote] @ ''!'' @ [doubleQuote]) []"] a b c
  show ?thesis by simp
qed

text \<open>
  C3 as stated fails on a template literal: the quote inside the text is removed and the
  backquote delimiters stay.
\<close>

theorem interior_quotes_counterexample:
  "map name (extractTests \<lparr>statements = [templateCall], importSpecifiers = []\<rparr> ''f'')
     = [backQuote # ''its'' @ [backQuote]]
   \<and> stripQuoteDelimiters (getText (hd (getArguments templateCall)))
     = ''it'' @ [singleQuote] @ ''s''
   \<and> singleQuote \<in> set (getText (hd (getArguments templateCall)))
   \<and> singleQuote \<notin> set (backQuote # ''its'' @ [backQuote])"
  by (simp add: extractTests_def getCallExpressions_def templateCall_def ident_def
        isTestCall_def nameOfArg_def removeQuotes_def stripQuoteDelimiters_def isQuote_def
        singleQuote_def doubleQuote_def backQuote_def)




section \<open>The import tracker: lemmas\<close>

lemma findFiles_visible:
  "findFiles env dir es =
     map fst (filter (\<lambda>(p, file). endsWith file ''.spec.ts'') (visibleFiles env dir es))"
  by (induction env dir es rule: findFiles.induct) auto

lemma importLoop_ex:
  "importLoop env specFile nh specifiers =
     list_ex (\<lambda>importPath. normalizePath env (resolveImportPath env specFile importPath) = nh)
       specifiers"
  by (induction specifiers) (simp_all add: Let_def)

lemma specLoop_filter:
  "specLoop env helperPath specFiles testFiles =
     testFiles @ filter (importsTarget env helperPath) specFiles"
  by (induction specFiles arbitrary: testFiles)
     (simp_all add: Let_def importLoop_ex importsTarget_def)

section \<open>The import tracker: claims\<close>

text \<open>
  C1, as amended. For every target file, \<open>findTestFilesImporting\<close> enumerates every file
  of the repository tree (recursively, not entering hidden directories and
  \<open>node_modules\<close>) whose name ends with \<open>.spec.ts\<close>, the one suffix it looks for, and
  returns exactly those of them for which some import, resolved against the importing
  file, is path-equal after normalization to the target file.
\<close>

theorem spec_files_importing:
  "findTestFilesImporting env target = specFilesImporting env target
   \<and> set (findAllSpecFiles env) =
       {p. \<exists>file. (p, file) \<in> set (visibleFiles env (repoPath env) (repoTree env))
             \<and> endsWith file ''.spec.ts''}
   \<and> set (findTestFilesImporting env target) =
       {p \<in> set (findAllSpecFiles env).
          \<exists>importPath \<in> set (extractImports env p).
            normalizePath env (resolveImportPath env p importPath) = normalizePath env target}"
proof -
  have a: "findTestFilesImporting env target = specFilesImporting env target"
    by (simp add: findTestFilesImporting_def specFilesImporting_def specLoop_filter
          findAllSpecFiles_def findFiles_visible)
  have b: "set (findAllSpecFiles env) =
       {p. \<exists>file. (p, file) \<in> set (visibleFiles env (repoPath env) (repoTree env))
             \<and> endsWith file ''.spec.ts''}"
    by (auto simp: findAllSpecFiles_def findFiles_visible image_iff)
  have c: "set (findTestFilesImporting env target) =
       {p \<in> set (findAllSpecFiles env).
          \<exists>importPath \<in> set (extractImports env p).
            normalizePath env (resolveImportPath env p importPath) = normalizePath env target}"
    by (auto simp: findTestFilesImporting_def specLoop_filter importsTarget_def list_ex_iff)
  from a b c show ?thesis by blast
qed

theorem spec_files_importing_witness:
  "findTestFilesImporting exampleEnv ''/repo/helpers/login.ts'' = [''/repo/tests/a.spec.ts'']
   \<and> specFilesImporting exampleEnv ''/repo/helpers/login.ts'' = [''/repo/tests/a.spec.ts'']
   \<and> findAllSpecFiles exampleEnv = [''/repo/tests/a.spec.ts'', ''/repo/tests/b.spec.ts'']"
proof -
  have a: "specFilesImporting exampleEnv ''/repo/helpers/login.ts'' = [''/repo/tests/a.spec.ts'']"
    by code_simp
  have b: "findAllSpecFiles exampleEnv = [''/repo/tests/a.spec.ts'', ''/repo/tests/b.spec.ts'']"
    by code_simp
  from spec_files_importing[of exampleEnv "''/repo/helpers/login.ts''"] a b
  show ?thesis by simp
qed

text \<open>
  C1 as stated fails on the second suffix of \<open>isTestFile\<close>: \<open>tests/c.test.ts\<close> is a
  test file of the tree that imports the target, and it is not returned.
\<close>

theorem test_suffix_counterexample:
  "(''/repo/tests/c.test.ts'', ''c.test.ts'') \<in> set (visibleFiles exampleEnv ''/repo'' exampleTree)
   \<and> isTestFile ''/repo/tests/c.test.ts''
   \<and> importsTarget exampleEnv ''/repo/helpers/login.ts'' ''/repo/tests/c.test.ts''
   \<and> testFilesImporting exampleEnv ''/repo/helpers/login.ts''
        = [''/repo/tests/a.spec.ts'', ''/repo/tests/c.test.ts'']
   \<and> findTestFilesImporting exampleEnv ''/repo/helpers/login.ts'' = [''/repo/tests/a.spec.ts'']
   \<and> ''/repo/tests/c.test.ts'' \<notin> set (findTestFilesImporting exampleEnv ''/repo/helpers/login.ts'')"
  by code_simp

text \<open>
  C9, as amended. A specifier that begins with the relative marker \<open>.\<close> (so every one
  that begins with \<open>./\<close> or \<open>../\<close>) is resolved against the directory of the importing
  file; when the resolved path does not exist, the resolver takes the path with \<open>.ts\<close>
  appended if that exists, else \<open>index.ts\<close> inside the path if that exists, else the
  resolved path. Every other specifier is returned as it is, whatever exists on disk. The
  caller compares it all the same: normalized against the repository root like every
  resolved import, it counts as an import of the target exactly when that normalization
  equals the target's, and a spec file of the tree with such an import is returned.
\<close>

theorem relative_specifier_resolution:
  "(startsWith importPath ''.'' \<longrightarrow>
      (let resolved = pathResolve env (pathDirname env fromFile) importPath;
           candidates = [resolved, resolved @ ''.ts'', pathJoin env resolved ''index.ts'']
       in resolveImportPath env fromFile importPath =
            (case find (existsSync env) candidates of
               Some found \<Rightarrow> found
             | None \<Rightarrow> resolved)
          \<and> (list_ex (existsSync env) candidates \<longrightarrow>
                existsSync env (resolveImportPath env fromFile importPath))))
   \<and> (\<not> startsWith importPath ''.'' \<longrightarrow>
      (\<forall>probe. resolveImportPath (env\<lparr>existsSync := probe\<rparr>) fromFile importPath = importPath)
      \<and> (importLoop env fromFile (normalizePath env target) [importPath] \<longleftrightarrow>
            pathResolve env (repoPath env) importPath = pathResolve env (repoPath env) target)
      \<and> (fromFile \<in> set (findAllSpecFiles env)
            \<and> importPath \<in> set (extractImports env fromFile)
            \<and> pathResolve env (repoPath env) importPath = pathResolve env (repoPath env) target
          \<longrightarrow> fromFile \<in> set (findTestFilesImporting env target)))
   \<and> (fromFile \<in> set (findTestFilesImporting env target) \<longleftrightarrow>
        fromFile \<in> set (findAllSpecFiles env)
        \<and> importLoop env fromFile (normalizePath env target) (extractImports env fromFile))
   \<and> startsWith (''./'' @ p) ''.'' \<and> startsWith (''../'' @ p) ''.''"
proof -
  let ?resolved = "pathResolve env (pathDirname env fromFile) importPath"
  let ?candidates = "[?resolved, ?resolved @ ''.ts'', pathJoin env ?resolved ''index.ts'']"
  have first: "resolveImportPath env fromFile importPath =
      (case find (existsSync env) ?candidates of Some found \<Rightarrow> found | None \<Rightarrow> ?resolved)"
    if "startsWith importPath ''.''"
    using that by (simp add: resolveImportPath_def Let_def)
  have exists: "existsSync env (resolveImportPath env fromFile importPath)"
    if "startsWith importPath ''.''" and "list_ex (existsSync env) ?candidates"
    using that by (auto simp: resolveImportPath_def Let_def)
  have bare: "resolveImportPath (env\<lparr>existsSync := probe\<rparr>) fromFile importPath = importPath"
    if "\<not> startsWith importPath ''.''" for probe
    using that by (simp add: resolveImportPath_def)
  have same: "resolveImportPath env fromFile importPath = importPath"
    if "\<not> startsWith importPath ''.''"
    using that by (simp add: resolveImportPath_def)
  have compared: "importLoop env fromFile (normalizePath env target) [importPath] \<longleftrightarrow>
      pathResolve env (repoPath env) importPath = pathResolve env (repoPath env) target"
    if "\<not> startsWith importPath ''.''"
    using same[OF that] by (simp add: Let_def normalizePath_def)
  have member: "fromFile \<in> set (findTestFilesImporting env target) \<longleftrightarrow>
      fromFile \<in> set (findAllSpecFiles env)
      \<and> importLoop env fromFile (normalizePath env target) (extractImports env fromFile)"
    by (auto simp: findTestFilesImporting_def specLoop_filter importsTarget_def importLoop_ex)
  have returned: "fromFile \<in> set (findTestFilesImporting env target)"
    if "\<not> startsWith importPath ''.''" and "fromFile \<in> set (findAllSpecFiles env)"
      and "importPath \<in> set (extractImports env fromFile)"
      and "pathResolve env (repoPath env) importPath = pathResolve env (repoPath env) target"
  proof -
    from same[OF that(1)] that(4)
    have "normalizePath env (resolveImportPath env fromFile importPath)
        = normalizePath env target"
      by (simp add: normalizePath_def)
    with that(3) have "importLoop env fromFile (normalizePath env target)
        (extractImports env fromFile)"
      unfolding importLoop_ex list_ex_iff by blast
    with that(2) member show ?thesis by simp
  qed
  have marker: "startsWith (''./'' @ p) ''.''" "startsWith (''../'' @ p) ''.''"
    by (simp_all add: startsWith_def)
  from first exists bare compared returned member marker show ?thesis
    by (simp add: Let_def)
qed

theorem relative_specifier_resolution_witness:
  "startsWith ''../helpers/login'' ''.''
   \<and> resolveImportPath exampleEnv ''/repo/tests/a.spec.ts'' ''../helpers/login''
        = ''/repo/helpers/login.ts''
   \<and> \<not> existsSync exampleEnv ''/repo/helpers/login''
   \<and> existsSync exampleEnv ''/repo/helpers/login.ts''
   \<and> \<not> startsWith ''@playwright/test'' ''.''
   \<and> resolveImportPath (exampleEnv\<lparr>existsSync := (\<lambda>p. True)\<rparr>) ''/repo/tests/a.spec.ts''
        ''@playwright/test'' = ''@playwright/test''
   \<and> \<not> importLoop exampleEnv ''/repo/tests/a.spec.ts''
          (normalizePath exampleEnv ''/repo/helpers/login.ts'') [''@playwright/test'']"
proof -
  have a: "startsWith ''../helpers/login'' ''.''" by (simp add: startsWith_def)
  have b: "\<not> startsWith ''@playwright/test'' ''.''" by (simp add: startsWith_def)
  have c: "pathResolve exampleEnv (pathDirname exampleEnv ''/repo/tests/a.spec.ts'')
             ''../helpers/login'' = ''/repo/helpers/login''"
    by code_simp
  have d: "\<not> existsSync exampleEnv ''/repo/helpers/login''"
    "existsSync exampleEnv ''/repo/helpers/login.ts''"
    by code_simp+
  have e: "pathResolve exampleEnv (repoPath exampleEnv) ''@playwright/test''
      \<noteq> pathResolve exampleEnv (repoPath exampleEnv) ''/repo/helpers/login.ts''"
    by code_simp
  from relative_specifier_resolution[of "''../helpers/login''" exampleEnv
      "''/repo/tests/a.spec.ts''" "''/repo/helpers/login.ts''" "[]"]
    relative_specifier_resolution[of "''@playwright/test''" exampleEnv
      "''/repo/tests/a.spec.ts''" "''/repo/helpers/login.ts''" "[]"] a b c d e
  show ?thesis by (simp add: Let_def)
qed

text \<open>
  C9 as stated fails in its last clause: in \<open>bareImportEnv\<close> the spec file
  \<open>tests/b.spec.ts\<close> imports the non-relative specifier \<open>helpers/login.ts\<close>, which the
  resolver returns as it is; the caller normalizes it to the target's path, and the file
  is returned as importing the target.
\<close>

theorem unresolved_specifier_counterexample:
  "\<not> startsWith ''helpers/login.ts'' ''.''
   \<and> resolveImportPath bareImportEnv ''/repo/tests/b.spec.ts'' ''helpers/login.ts''
        = ''helpers/login.ts''
   \<and> ''helpers/login.ts'' \<in> set (extractImports bareImportEnv ''/repo/tests/b.spec.ts'')
   \<and> normalizePath bareImportEnv ''helpers/login.ts'' = ''/repo/helpers/login.ts''
   \<and> findTestFilesImporting bareImportEnv ''/repo/helpers/login.ts''
        = [''/repo/tests/a.spec.ts'', ''/repo/tests/b.spec.ts'']"
  by code_simp

section \<open>The impact analyzer: lemmas\<close>

lemma findAdded_eq:
  "findAdded cf beforeTests tests impacts =
     impacts @ map (direct cf Added) (filter (\<lambda>t. \<not> nameIn beforeTests t) tests)"
  by (induction tests arbitrary: impacts) (simp_all add: Let_def nameIn_def)

lemma findRemoved_eq:
  "findRemoved cf currentTests tests impacts =
     impacts @ map (direct cf Removed) (filter (\<lambda>t. \<not> nameIn currentTests t) tests)"
  by (induction tests arbitrary: impacts) (simp_all add: Let_def nameIn_def)

lemma find_nameIn:
  "(find (\<lambda>bt. name bt = name t) beforeTests = None) = (\<not> nameIn beforeTests t)"
  by (auto simp add: find_None_iff nameIn_def list_ex_iff)

lemma alreadyAdded_modified [simp]:
  "alreadyAdded (impacts @ [direct cf Modified t]) n = alreadyAdded impacts n"
  by (simp add: alreadyAdded_def direct_def)

lemma findModified_eq:
  "findModified cf beforeTests tests impacts =
     impacts @ map (direct cf Modified)
       (filter (\<lambda>t. nameIn beforeTests t \<and> overlaps cf t \<and> \<not> alreadyAdded impacts (name t))
          tests)"
proof (induction tests arbitrary: impacts)
  case Nil
  then show ?case by simp
next
  case (Cons t tests)
  show ?case
  proof (cases "find (\<lambda>bt. name bt = name t) beforeTests")
    case None
    with Cons show ?thesis using find_nameIn[of t beforeTests] by simp
  next
    case (Some bt)
    then have "nameIn beforeTests t" using find_nameIn[of t beforeTests] by simp
    with Some Cons show ?thesis
      by (simp add: Let_def overlaps_def alreadyAdded_def[symmetric])
  qed
qed

lemma not_alreadyAdded:
  assumes "nameIn beforeTests t"
  shows "\<not> alreadyAdded
           (map (direct cf Added) (filter (\<lambda>u. \<not> nameIn beforeTests u) currentTests) @
            map (direct cf Removed) removed) (name t)"
proof -
  have "\<not> nameIn beforeTests u" if "name u = name t" "\<not> nameIn beforeTests u" for u
    using that assms by (simp add: nameIn_def)
  then show ?thesis
    using assms by (auto simp: alreadyAdded_def list_ex_iff direct_def nameIn_def)
qed

lemma analyzeModified_eq:
  "analyzeModified cf beforeTests currentTests =
     map (direct cf Added) (filter (\<lambda>t. \<not> nameIn beforeTests t) currentTests) @
     map (direct cf Removed) (filter (\<lambda>t. \<not> nameIn currentTests t) beforeTests) @
     map (direct cf Modified) (filter (\<lambda>t. nameIn beforeTests t \<and> overlaps cf t) currentTests)"
proof -
  let ?A = "map (direct cf Added) (filter (\<lambda>t. \<not> nameIn beforeTests t) currentTests)"
  let ?R = "map (direct cf Removed) (filter (\<lambda>t. \<not> nameIn currentTests t) beforeTests)"
  have "filter (\<lambda>t. nameIn beforeTests t \<and> overlaps cf t \<and> \<not> alreadyAdded (?A @ ?R) (name t))
          currentTests
        = filter (\<lambda>t. nameIn beforeTests t \<and> overlaps cf t) currentTests"
    by (rule filter_cong) (auto simp: not_alreadyAdded)
  then show ?thesis
    by (simp add: analyzeModified_def findAdded_eq findRemoved_eq findModified_eq)
qed

lemma parseTestFile_content:
  "text \<noteq> [] \<Longrightarrow>
     parseTestFile env fp (Some text) = Inr (extractTests (createSourceFile env text) fp)"
  by (simp add: parseTestFile_def)

lemma analyzeTestFile_modified:
  assumes "changeType cf = FileModified"
    and "getFileBeforeCommit env sha (path cf) = Some old" and "old \<noteq> []"
    and "getFileAtCommit env sha (path cf) = Some new" and "new \<noteq> []"
  shows "analyzeTestFile env cf sha =
           Inr (analyzeModified cf
                  (extractTests (createSourceFile env old) (pathJoin env (repoPath env) (path cf)))
                  (extractTests (createSourceFile env new) (pathJoin env (repoPath env) (path cf))))"
  using assms by (simp add: analyzeTestFile_def Let_def truthy_def parseTestFile_content)

lemma truthy_Some: "truthy c \<Longrightarrow> \<exists>t. c = Some t \<and> t \<noteq> []"
  by (cases c) (simp_all add: truthy_def)

lemma analyzeTestFile_added:
  assumes "changeType cf = FileAdded"
  shows "analyzeTestFile env cf sha =
     (case getFileAtCommit env sha (path cf) of
        None \<Rightarrow> Inr []
      | Some t \<Rightarrow>
          (if t = [] then Inr []
           else Inr (map (direct cf Added)
                  (extractTests (createSourceFile env t) (pathJoin env (repoPath env) (path cf))))))"
  using assms
  by (simp add: analyzeTestFile_def Let_def truthy_def parseTestFile_content split: option.splits)

lemma analyzeTestFile_deleted:
  assumes "changeType cf = FileDeleted"
  shows "analyzeTestFile env cf sha =
     (case getFileBeforeCommit env sha (path cf) of
        None \<Rightarrow> Inr []
      | Some t \<Rightarrow>
          (if t = [] then Inr []
           else Inr (map (direct cf Removed)
                  (extractTests (createSourceFile env t) (pathJoin env (repoPath env) (path cf))))))"
  using assms
  by (simp add: analyzeTestFile_def Let_def truthy_def parseTestFile_content split: option.splits)

lemma analyzeTestFile_modified_absent:
  assumes "changeType cf = FileModified"
    and "\<not> truthy (getFileBeforeCommit env sha (path cf)) \<or>
         \<not> truthy (getFileAtCommit env sha (path cf))"
  shows "analyzeTestFile env cf sha = Inr []"
  using assms by (auto simp add: analyzeTestFile_def Let_def)

lemma analyzeTestFile_total:
  "analyzeTestFile env cf sha = Inr (testFileImpacts env sha cf)"
proof (cases "changeType cf")
  case FileAdded
  then show ?thesis
    by (simp add: testFileImpacts_def analyzeTestFile_added split: option.splits)
next
  case FileDeleted
  then show ?thesis
    by (simp add: testFileImpacts_def analyzeTestFile_deleted split: option.splits)
next
  case FileModified
  show ?thesis
  proof (cases "truthy (getFileBeforeCommit env sha (path cf)) \<and>
                truthy (getFileAtCommit env sha (path cf))")
    case True
    then obtain old new where
      "getFileBeforeCommit env sha (path cf) = Some old" "old \<noteq> []"
      "getFileAtCommit env sha (path cf) = Some new" "new \<noteq> []"
      by (auto dest!: truthy_Some)
    from analyzeTestFile_modified[OF FileModified this] show ?thesis
      by (simp add: testFileImpacts_def)
  next
    case False
    then have "analyzeTestFile env cf sha = Inr []"
      using FileModified by (intro analyzeTestFile_modified_absent) auto
    then show ?thesis by (simp add: testFileImpacts_def)
  qed
qed

lemma direct_fields [simp]:
  "isIndirect (direct cf ty t) = None" "impactType (direct cf ty t) = ty"
  "testName (direct cf ty t) = name t"
  by (simp_all add: direct_def)

lemma analyzeModified_direct:
  "r \<in> set (analyzeModified cf bs cs) \<Longrightarrow> isIndirect r = None"
  by (auto simp: analyzeModified_eq)

lemma testFileImpacts_direct:
  assumes "r \<in> set (testFileImpacts env sha cf)"
  shows "isIndirect r = None"
proof (cases "changeType cf")
  case FileAdded
  with assms show ?thesis
    by (auto simp: testFileImpacts_def analyzeTestFile_added split: option.splits if_splits)
next
  case FileDeleted
  with assms show ?thesis
    by (auto simp: testFileImpacts_def analyzeTestFile_deleted split: option.splits if_splits)
next
  case FileModified
  show ?thesis
  proof (cases "truthy (getFileBeforeCommit env sha (path cf)) \<and>
                truthy (getFileAtCommit env sha (path cf))")
    case True
    then obtain old new where
      "getFileBeforeCommit env sha (path cf) = Some old" "old \<noteq> []"
      "getFileAtCommit env sha (path cf) = Some new" "new \<noteq> []"
      by (auto dest!: truthy_Some)
    from analyzeTestFile_modified[OF FileModified this] assms show ?thesis
      by (auto simp: testFileImpacts_def dest: analyzeModified_direct)
  next
    case False
    then have "analyzeTestFile env cf sha = Inr []"
      using FileModified by (intro analyzeTestFile_modified_absent) auto
    with assms show ?thesis by (simp add: testFileImpacts_def)
  qed
qed

lemma directLoop_eq:
  "directLoop env sha files impacts =
     Inr (impacts @ concat (map (testFileImpacts env sha) files))"
  by (induction files arbitrary: impacts) (simp_all add: analyzeTestFile_total)

lemma indirect_fields [simp]:
  "isIndirect (indirect p t) = Some True" "impactType (indirect p t) = Modified"
  by (simp_all add: indirect_def)

lemma helperLoop_acc:
  "helperLoop env files impacts =
     (case helperLoop env files [] of
        Inl e \<Rightarrow> Inl e
      | Inr new \<Rightarrow> Inr (impacts @ new))"
proof (induction files arbitrary: impacts)
  case Nil
  then show ?case by simp
next
  case (Cons f files)
  show ?case
  proof (cases "parseTestFile env f None")
    case (Inl e)
    then show ?thesis by simp
  next
    case (Inr tests)
    let ?new = "map (indirect (pathRelative env (repoPath env) f)) tests"
    from Inr have "helperLoop env (f # files) impacts = helperLoop env files (impacts @ ?new)"
      and "helperLoop env (f # files) [] = helperLoop env files ?new"
      by (simp_all add: Let_def)
    then show ?thesis
      using Cons.IH[of "impacts @ ?new"] Cons.IH[of ?new]
      by (simp split: sum.splits)
  qed
qed

lemma helperLoop_indirect:
  "helperLoop env files [] = Inr new \<Longrightarrow>
     \<forall>r \<in> set new. impactType r = Modified \<and> isIndirect r = Some True"
proof (induction files arbitrary: new)
  case Nil
  then show ?case by simp
next
  case (Cons f files)
  from Cons.prems obtain tests where t: "parseTestFile env f None = Inr tests"
    by (cases "parseTestFile env f None") simp_all
  let ?new = "map (indirect (pathRelative env (repoPath env) f)) tests"
  from t Cons.prems have "helperLoop env files ?new = Inr new" by (simp add: Let_def)
  then obtain rest where r: "helperLoop env files [] = Inr rest" "new = ?new @ rest"
    using helperLoop_acc[of env files ?new] by (auto split: sum.splits)
  from Cons.IH[OF r(1)] r(2) show ?case by auto
qed

lemma analyzeHelperFile_indirect:
  "analyzeHelperFile env cf = Inr impacts \<Longrightarrow>
     \<forall>r \<in> set impacts. impactType r = Modified \<and> isIndirect r = Some True"
  by (simp add: analyzeHelperFile_def Let_def helperLoop_indirect)

lemma indirectLoop_acc:
  "indirectLoop env files impacts =
     (case indirectLoop env files [] of
        Inl e \<Rightarrow> Inl e
      | Inr new \<Rightarrow> Inr (impacts @ new))"
proof (induction files arbitrary: impacts)
  case Nil
  then show ?case by simp
next
  case (Cons f files)
  show ?case
  proof (cases "analyzeHelperFile env f")
    case (Inl e)
    then show ?thesis by simp
  next
    case (Inr new)
    then show ?thesis
      using Cons.IH[of "impacts @ new"] Cons.IH[of new]
      by (simp split: sum.splits)
  qed
qed

lemma indirectLoop_indirect:
  "indirectLoop env files [] = Inr new \<Longrightarrow>
     \<forall>r \<in> set new. impactType r = Modified \<and> isIndirect r = Some True"
proof (induction files arbitrary: new)
  case Nil
  then show ?case by simp
next
  case (Cons f files)
  from Cons.prems obtain first where f: "analyzeHelperFile env f = Inr first"
    by (cases "analyzeHelperFile env f") simp_all
  with Cons.prems have "indirectLoop env files first = Inr new" by simp
  then obtain rest where r: "indirectLoop env files [] = Inr rest" "new = first @ rest"
    using indirectLoop_acc[of env files first] by (auto split: sum.splits)
  from Cons.IH[OF r(1)] r(2) analyzeHelperFile_indirect[OF f] show ?case by auto
qed

lemma analyzeChanged_eq:
  "analyzeChanged env sha changed =
     (case indirectLoop env
             (filter (\<lambda>f. \<not> isTestFile (path f) \<and> endsWith (path f) ''.ts'') changed) [] of
        Inl e \<Rightarrow> Inl e
      | Inr new \<Rightarrow>
          Inr (concat (map (testFileImpacts env sha) (filter (\<lambda>f. isTestFile (path f)) changed))
               @ new))"
  by (simp add: analyzeChanged_def Let_def directLoop_eq)
     (rule indirectLoop_acc)

section \<open>The impact analyzer: claims\<close>





text \<open>
  C6. A changed test file whose required content is absent (for an added file the
  content at the commit, for a deleted file the content before it, for a modified file
  either of the two) yields the empty result list and no error, and the analysis of the
  changed files is the analysis of the other changed files.
\<close>

theorem absent_content_contributes_nothing:
  assumes "isTestFile (path cf)"
    and "changeType cf = FileAdded \<longrightarrow> getFileAtCommit env sha (path cf) = None"
    and "changeType cf = FileDeleted \<longrightarrow> getFileBeforeCommit env sha (path cf) = None"
    and "changeType cf = FileModified \<longrightarrow>
           getFileBeforeCommit env sha (path cf) = None \<or>
           getFileAtCommit env sha (path cf) = None"
  shows "analyzeTestFile env cf sha = Inr []
     \<and> analyzeChanged env sha (before @ cf # after) = analyzeChanged env sha (before @ after)
     \<and> (getChangedFiles env sha = Inr (before @ cf # after) \<longrightarrow>
          analyzeCommit env sha = analyzeChanged env sha (before @ after))"
proof -
  have none: "analyzeTestFile env cf sha = Inr []"
  proof (cases "changeType cf")
    case FileAdded
    with assms(2) show ?thesis by (simp add: analyzeTestFile_added)
  next
    case FileDeleted
    with assms(3) show ?thesis by (simp add: analyzeTestFile_deleted)
  next
    case FileModified
    with assms(4) show ?thesis
      by (intro analyzeTestFile_modified_absent) (auto simp: truthy_def)
  qed
  then have "testFileImpacts env sha cf = []" by (simp add: testFileImpacts_def)
  with assms(1)
  have "concat (map (testFileImpacts env sha)
            (filter (\<lambda>f. isTestFile (path f)) (before @ cf # after)))
        = concat (map (testFileImpacts env sha)
            (filter (\<lambda>f. isTestFile (path f)) (before @ after)))"
    and "filter (\<lambda>f. \<not> isTestFile (path f) \<and> endsWith (path f) ''.ts'') (before @ cf # after)
        = filter (\<lambda>f. \<not> isTestFile (path f) \<and> endsWith (path f) ''.ts'') (before @ after)"
    by simp_all
  then
  have same: "analyzeChanged env sha (before @ cf # after) = analyzeChanged env sha (before @ after)"
    unfolding analyzeChanged_eq by (simp only:)
  with none show ?thesis by (simp add: analyzeCommit_def)
qed

lemma example_absent:
  "isTestFile (path changedOld)"
  "changeType changedOld = FileAdded \<longrightarrow> getFileAtCommit exampleEnv ''c1'' (path changedOld) = None"
  "changeType changedOld = FileDeleted \<longrightarrow>
     getFileBeforeCommit exampleEnv ''c1'' (path changedOld) = None"
  "changeType changedOld = FileModified \<longrightarrow>
     getFileBeforeCommit exampleEnv ''c1'' (path changedOld) = None \<or>
     getFileAtCommit exampleEnv ''c1'' (path changedOld) = None"
  by code_simp+

theorem absent_content_contributes_nothing_witness:
  "isTestFile (path changedOld) \<and> changeType changedOld = FileDeleted
   \<and> getFileBeforeCommit exampleEnv ''c1'' (path changedOld) = None
   \<and> getChangedFiles exampleEnv ''c1'' = Inr ([changedA, changedLogin] @ changedOld # [])
   \<and> analyzeTestFile exampleEnv changedOld ''c1'' = Inr []
   \<and> analyzeCommit exampleEnv ''c1'' = analyzeChanged exampleEnv ''c1'' ([changedA, changedLogin] @ [])"
proof -
  have a: "changeType changedOld = FileDeleted"
    "getFileBeforeCommit exampleEnv ''c1'' (path changedOld) = None"
    "getChangedFiles exampleEnv ''c1'' = Inr ([changedA, changedLogin] @ changedOld # [])"
    by code_simp+
  from absent_content_contributes_nothing[OF example_absent, of "[changedA, changedLogin]" "[]"]
    example_absent(1) a
  show ?thesis by simp
qed

text \<open>
  C8. No result of \<open>analyzeTestFile\<close> has \<open>isIndirect\<close> true; every result of
  \<open>analyzeHelperFile\<close> has impact type modified and \<open>isIndirect\<close> true; and a result
  list that \<open>analyzeCommit\<close> returns is the results of the test-file pass followed by
  those of the helper-file pass, with these two properties.
\<close>

theorem indirect_only_from_helpers:
  "(analyzeTestFile env cf sha = Inr directImpacts \<longrightarrow>
      (\<forall>r \<in> set directImpacts. isIndirect r \<noteq> Some True))
   \<and> (analyzeHelperFile env cf = Inr indirectImpacts \<longrightarrow>
      (\<forall>r \<in> set indirectImpacts. impactType r = Modified \<and> isIndirect r = Some True))
   \<and> (analyzeCommit env sha = Inr impacts \<longrightarrow>
      (\<exists>changed fromTests fromHelpers.
         getChangedFiles env sha = Inr changed
         \<and> directLoop env sha (filter (\<lambda>f. isTestFile (path f)) changed) [] = Inr fromTests
         \<and> indirectLoop env
              (filter (\<lambda>f. \<not> isTestFile (path f) \<and> endsWith (path f) ''.ts'') changed) []
              = Inr fromHelpers
         \<and> impacts = fromTests @ fromHelpers
         \<and> (\<forall>r \<in> set fromTests. isIndirect r \<noteq> Some True)
         \<and> (\<forall>r \<in> set fromHelpers. impactType r = Modified \<and> isIndirect r = Some True)))"
proof -
  have 1: "\<forall>r \<in> set directImpacts. isIndirect r \<noteq> Some True"
    if "analyzeTestFile env cf sha = Inr directImpacts"
  proof -
    from that analyzeTestFile_total[of env cf sha]
    have "directImpacts = testFileImpacts env sha cf" by simp
    then show ?thesis by (auto dest: testFileImpacts_direct)
  qed
  have 2: "\<forall>r \<in> set indirectImpacts. impactType r = Modified \<and> isIndirect r = Some True"
    if "analyzeHelperFile env cf = Inr indirectImpacts"
    using that by (rule analyzeHelperFile_indirect)
  have 3: "\<exists>changed fromTests fromHelpers.
         getChangedFiles env sha = Inr changed
         \<and> directLoop env sha (filter (\<lambda>f. isTestFile (path f)) changed) [] = Inr fromTests
         \<and> indirectLoop env
              (filter (\<lambda>f. \<not> isTestFile (path f) \<and> endsWith (path f) ''.ts'') changed) []
              = Inr fromHelpers
         \<and> impacts = fromTests @ fromHelpers
         \<and> (\<forall>r \<in> set fromTests. isIndirect r \<noteq> Some True)
         \<and> (\<forall>r \<in> set fromHelpers. impactType r = Modified \<and> isIndirect r = Some True)"
    if run: "analyzeCommit env sha = Inr impacts"
  proof -
    from run obtain changed where c: "getChangedFiles env sha = Inr changed"
      "analyzeChanged env sha changed = Inr impacts"
      by (auto simp: analyzeCommit_def split: sum.splits)
    let ?tests = "filter (\<lambda>f. isTestFile (path f)) changed"
    let ?helpers = "filter (\<lambda>f. \<not> isTestFile (path f) \<and> endsWith (path f) ''.ts'') changed"
    let ?fromTests = "concat (map (testFileImpacts env sha) ?tests)"
    from c(2) obtain fromHelpers where
      h: "indirectLoop env ?helpers [] = Inr fromHelpers" "impacts = ?fromTests @ fromHelpers"
      by (auto simp: analyzeChanged_eq split: sum.splits)
    have d: "directLoop env sha ?tests [] = Inr ?fromTests" by (simp add: directLoop_eq)
    have t: "\<forall>r \<in> set ?fromTests. isIndirect r \<noteq> Some True"
      by (auto dest: testFileImpacts_direct)
    from c(1) d h t indirectLoop_indirect[OF h(1)] show ?thesis by blast
  qed
  from 1 2 3 show ?thesis by blast
qed

theorem indirect_only_from_helpers_witness:
  "analyzeCommit exampleEnv ''c1'' =
     Inr [\<lparr>testName = ''logs out'', resultPath = ''tests/a.spec.ts'', impactType = Added,
            isIndirect = None\<rparr>,
          \<lparr>testName = ''login'', resultPath = ''tests/a.spec.ts'', impactType = Modified,
            isIndirect = None\<rparr>,
          \<lparr>testName = ''login'', resultPath = ''tests/a.spec.ts'', impactType = Modified,
            isIndirect = Some True\<rparr>,
          \<lparr>testName = ''logs in'', resultPath = ''tests/a.spec.ts'', impactType = Modified,
            isIndirect = Some True\<rparr>,
          \<lparr>testName = ''logs out'', resultPath = ''tests/a.spec.ts'', impactType = Modified,
            isIndirect = Some True\<rparr>]
   \<and> (\<exists>changed fromTests fromHelpers.
         getChangedFiles exampleEnv ''c1'' = Inr changed
         \<and> directLoop exampleEnv ''c1'' (filter (\<lambda>f. isTestFile (path f)) changed) []
              = Inr fromTests
         \<and> indirectLoop exampleEnv
              (filter (\<lambda>f. \<not> isTestFile (path f) \<and> endsWith (path f) ''.ts'') changed) []
              = Inr fromHelpers
         \<and> analyzeCommit exampleEnv ''c1'' = Inr (fromTests @ fromHelpers)
         \<and> list_all (\<lambda>r. isIndirect r \<noteq> Some True) fromTests
         \<and> list_all (\<lambda>r. impactType r = Modified \<and> isIndirect r = Some True) fromHelpers)"
proof -
  let ?r = "[\<lparr>testName = ''logs out'', resultPath = ''tests/a.spec.ts'', impactType = Added,
            isIndirect = None\<rparr>,
          \<lparr>testName = ''login'', resultPath = ''tests/a.spec.ts'', impactType = Modified,
            isIndirect = None\<rparr>,
          \<lparr>testName = ''login'', resultPath = ''tests/a.spec.ts'', impactType = Modified,
            isIndirect = Some True\<rparr>,
          \<lparr>testName = ''logs in'', resultPath = ''tests/a.spec.ts'', impactType = Modified,
            isIndirect = Some True\<rparr>,
          \<lparr>testName = ''logs out'', resultPath = ''tests/a.spec.ts'', impactType = Modified,
            isIndirect = Some True\<rparr>]"
  have run: "analyzeCommit exampleEnv ''c1'' = Inr ?r" by code_simp
  from indirect_only_from_helpers[of exampleEnv _ "''c1''" _ _ ?r] run
  obtain changed fromTests fromHelpers where
    h: "getChangedFiles exampleEnv ''c1'' = Inr changed"
       "directLoop exampleEnv ''c1'' (filter (\<lambda>f. isTestFile (path f)) changed) []
              = Inr fromTests"
       "indirectLoop exampleEnv
              (filter (\<lambda>f. \<not> isTestFile (path f) \<and> endsWith (path f) ''.ts'') changed) []
              = Inr fromHelpers"
       "?r = fromTests @ fromHelpers"
       "\<forall>r \<in> set fromTests. isIndirect r \<noteq> Some True"
       "\<forall>r \<in> set fromHelpers. impactType r = Modified \<and> isIndirect r = Some True"
    by blast
  from h(4) run have "analyzeCommit exampleEnv ''c1'' = Inr (fromTests @ fromHelpers)"
    by simp
  with h(1-3,5,6) have "\<exists>changed fromTests fromHelpers.
         getChangedFiles exampleEnv ''c1'' = Inr changed
         \<and> directLoop exampleEnv ''c1'' (filter (\<lambda>f. isTestFile (path f)) changed) []
              = Inr fromTests
         \<and> indirectLoop exampleEnv
              (filter (\<lambda>f. \<not> isTestFile (path f) \<and> endsWith (path f) ''.ts'') changed) []
              = Inr fromHelpers
         \<and> analyzeCommit exampleEnv ''c1'' = Inr (fromTests @ fromHelpers)
         \<and> list_all (\<lambda>r. isIndirect r \<noteq> Some True) fromTests
         \<and> list_all (\<lambda>r. impactType r = Modified \<and> isIndirect r = Some True) fromHelpers"
    unfolding list_all_iff by blast
  with run show ?thesis by (rule conjI)
qed

end
